theory Spec2Isabelle
  imports Complex_Main "HOL-Library.Multiset"
begin

section \<open>JavaScript strings, numbers and regular expressions\<close>

text \<open>
  Strings are lists of characters. The whitespace set is the ASCII part of what
  \<^verbatim>\<open>\s\<close>, \<^verbatim>\<open>trim\<close> and \<^verbatim>\<open>parseFloat\<close> skip (space, tab, line feed,
  vertical tab, form feed, carriage return); case mapping is the ASCII part of
  \<^verbatim>\<open>toLowerCase\<close> and \<^verbatim>\<open>toUpperCase\<close>.
\<close>

definition chars_digit :: "char list" where
  "chars_digit = ''0123456789''"

definition chars_upper :: "char list" where
  "chars_upper = ''ABCDEFGHIJKLMNOPQRSTUVWXYZ''"

definition chars_lower :: "char list" where
  "chars_lower = ''abcdefghijklmnopqrstuvwxyz''"

definition chars_space :: "char list" where
  "chars_space = [CHR '' '', CHR 0x09, CHR 0x0A, CHR 0x0B, CHR 0x0C, CHR 0x0D]"

definition chars_newline :: "char list" where
  "chars_newline = [CHR 0x0A, CHR 0x0D]"

definition is_digit :: "char \<Rightarrow> bool" where
  "is_digit c = (c \<in> set chars_digit)"

definition is_space :: "char \<Rightarrow> bool" where
  "is_space c = (c \<in> set chars_space)"

definition char_lower :: "char \<Rightarrow> char" where
  "char_lower c = (case map_of (zip chars_upper chars_lower) c of Some l \<Rightarrow> l | None \<Rightarrow> c)"

definition char_upper :: "char \<Rightarrow> char" where
  "char_upper c = (case map_of (zip chars_lower chars_upper) c of Some u \<Rightarrow> u | None \<Rightarrow> c)"

definition toLowerCase :: "string \<Rightarrow> string" where
  "toLowerCase s = map char_lower s"

definition trim :: "string \<Rightarrow> string" where
  "trim s = rev (dropWhile is_space (rev (dropWhile is_space s)))"

text \<open>\<^verbatim>\<open>a.includes(b)\<close>: \<open>b\<close> occurs in \<open>a\<close> as a contiguous substring.\<close>

primrec starts_with :: "string \<Rightarrow> string \<Rightarrow> bool" where
  "starts_with s [] = True"
| "starts_with s (c # cs) = (case s of [] \<Rightarrow> False | d # ds \<Rightarrow> d = c \<and> starts_with ds cs)"

primrec str_includes :: "string \<Rightarrow> string \<Rightarrow> bool" where
  "str_includes [] b = (b = [])"
| "str_includes (c # cs) b = (starts_with (c # cs) b \<or> str_includes cs b)"

text \<open>\<^verbatim>\<open>s.padStart(n, '0')\<close>.\<close>

definition padStart0 :: "nat \<Rightarrow> string \<Rightarrow> string" where
  "padStart0 n s = replicate (n - length s) CHR ''0'' @ s"

subsection \<open>Numbers\<close>

text \<open>
  A JavaScript number is modelled as an exact rational, or one of the three special
  values; the rounding of IEEE doubles is outside the model. Confidences are always
  finite in the program (they are built from literals by \<open>+\<close>, \<open>-\<close>, \<open>*\<close>,
  \<^verbatim>\<open>Math.min\<close> and \<^verbatim>\<open>Math.max\<close>), so they are plain rationals.
\<close>

datatype jsnum = Fin rat | PInf | NInf | NaN

text \<open>\<open>a < b\<close> and \<open>a > b\<close> on numbers: false as soon as one side is \<open>NaN\<close>.\<close>

fun num_lt :: "jsnum \<Rightarrow> jsnum \<Rightarrow> bool" where
  "num_lt (Fin a) (Fin b) = (a < b)"
| "num_lt (Fin a) PInf = True"
| "num_lt NInf (Fin b) = True"
| "num_lt NInf PInf = True"
| "num_lt _ _ = False"

definition num_gt :: "jsnum \<Rightarrow> jsnum \<Rightarrow> bool" where
  "num_gt a b = num_lt b a"

definition num_le :: "jsnum \<Rightarrow> jsnum \<Rightarrow> bool" where
  "num_le a b = (a \<noteq> NaN \<and> b \<noteq> NaN \<and> \<not> num_lt b a)"

definition num_ge :: "jsnum \<Rightarrow> jsnum \<Rightarrow> bool" where
  "num_ge a b = num_le b a"

text \<open>
  \<^verbatim>\<open>parseFloat\<close>: skip leading whitespace, read an optional sign, then the longest
  prefix that is \<^verbatim>\<open>Infinity\<close> or a decimal literal (digits, optional fraction,
  optional exponent); \<open>NaN\<close> when there is no such prefix.
\<close>

definition digit_val :: "char \<Rightarrow> int" where
  "digit_val c = int (length (takeWhile (\<lambda>d. d \<noteq> c) chars_digit))"

definition dec_val :: "string \<Rightarrow> int" where
  "dec_val ds = foldl (\<lambda>a d. 10 * a + digit_val d) 0 ds"

definition pow10 :: "int \<Rightarrow> rat" where
  "pow10 e = (if 0 \<le> e then 10 ^ nat e else 1 / 10 ^ nat (- e))"

definition exponent_part :: "string \<Rightarrow> int" where
  "exponent_part s =
     (case s of
        [] \<Rightarrow> 0
      | c # r \<Rightarrow>
          if c = CHR ''e'' \<or> c = CHR ''E'' then
            (case r of
               [] \<Rightarrow> 0
             | d # r' \<Rightarrow>
                 if d = CHR ''+'' then
                   (if takeWhile is_digit r' = [] then 0 else dec_val (takeWhile is_digit r'))
                 else if d = CHR ''-'' then
                   (if takeWhile is_digit r' = [] then 0 else - dec_val (takeWhile is_digit r'))
                 else if takeWhile is_digit r = [] then 0
                 else dec_val (takeWhile is_digit r))
          else 0)"

definition unsigned_literal :: "string \<Rightarrow> jsnum" where
  "unsigned_literal u =
     (if starts_with u ''Infinity'' then PInf
      else
        let ip = takeWhile is_digit u;
            r1 = dropWhile is_digit u;
            fp = (case r1 of [] \<Rightarrow> [] | c # r \<Rightarrow> if c = CHR ''.'' then takeWhile is_digit r else []);
            r2 = (case r1 of [] \<Rightarrow> [] | c # r \<Rightarrow> if c = CHR ''.'' then dropWhile is_digit r else r1)
        in if ip = [] \<and> fp = [] then NaN
           else Fin (rat_of_int (dec_val (ip @ fp)) / 10 ^ length fp * pow10 (exponent_part r2)))"

definition num_neg :: "jsnum \<Rightarrow> jsnum" where
  "num_neg a = (case a of Fin x \<Rightarrow> Fin (- x) | PInf \<Rightarrow> NInf | NInf \<Rightarrow> PInf | NaN \<Rightarrow> NaN)"

definition parseFloat :: "string \<Rightarrow> jsnum" where
  "parseFloat s =
     (case dropWhile is_space s of
        [] \<Rightarrow> NaN
      | c # r \<Rightarrow>
          if c = CHR ''+'' then unsigned_literal r
          else if c = CHR ''-'' then num_neg (unsigned_literal r)
          else unsigned_literal (c # r))"

subsection \<open>Regular expressions\<close>

text \<open>
  The fragment of the regular expression language that the program's literals use. A
  character class is a list of characters and a negation flag; \<open>Grp i r\<close> is the
  \<open>i\<close>-th capturing group; \<open>Bol\<close> is \<^verbatim>\<open>^\<close>. The derived forms are the usual
  unfoldings and keep the greedy order of alternatives. No group of the program's
  literals stands under a star, so the reset of captures at each iteration of a star
  is not modelled.
\<close>

datatype regex =
    Eps
  | Cls bool "char list"
  | Seq regex regex
  | Alt regex regex
  | Star regex
  | Grp nat regex
  | Bol

definition Chr :: "char \<Rightarrow> regex" where
  "Chr c = Cls False [c]"

definition Lit :: "string \<Rightarrow> regex" where
  "Lit s = foldr (\<lambda>c r. Seq (Chr c) r) s Eps"

definition Dot :: regex where
  "Dot = Cls True chars_newline"

definition Opt :: "regex \<Rightarrow> regex" where
  "Opt r = Alt r Eps"

definition Plus :: "regex \<Rightarrow> regex" where
  "Plus r = Seq r (Star r)"

definition Seqs :: "regex list \<Rightarrow> regex" where
  "Seqs rs = foldr Seq rs Eps"

primrec Rep :: "nat \<Rightarrow> regex \<Rightarrow> regex" where
  "Rep 0 r = Eps"
| "Rep (Suc n) r = Seq r (Rep n r)"

text \<open>\<open>RepUpTo n r\<close> is \<^verbatim>\<open>r{0,n}\<close>, greedy.\<close>

primrec RepUpTo :: "nat \<Rightarrow> regex \<Rightarrow> regex" where
  "RepUpTo 0 r = Eps"
| "RepUpTo (Suc n) r = Opt (Seq r (RepUpTo n r))"

record RegExp =
  pattern :: regex
  ignoreCase :: bool
  multiline :: bool

text \<open>
  A matcher state is the part of the input not yet consumed and the captures made so
  far (most recent first). With the \<^verbatim>\<open>i\<close> flag a character matches a class member
  when both have the same upper-case form.
\<close>

type_synonym mstate = "string \<times> (nat \<times> string) list"

definition cls_match :: "bool \<Rightarrow> bool \<Rightarrow> char list \<Rightarrow> char \<Rightarrow> bool" where
  "cls_match ic neg cs c =
     (let hit = (if ic then char_upper c \<in> set cs \<or> char_lower c \<in> set cs else c \<in> set cs)
      in if neg then \<not> hit else hit)"

definition at_line_start :: "bool \<Rightarrow> string \<Rightarrow> string \<Rightarrow> bool" where
  "at_line_start ml inp rest =
     (let pos = length inp - length rest
      in pos = 0 \<or> (ml \<and> inp ! (pos - 1) \<in> set chars_newline))"

text \<open>
  The matcher follows the continuation semantics of the language definition: \<open>k\<close> is
  what remains to be matched, \<open>None\<close> is failure and makes the caller try its next
  alternative. An iteration of a star that consumes nothing is rejected.
\<close>

primrec star_iter ::
  "((mstate \<Rightarrow> 'a option) \<Rightarrow> mstate \<Rightarrow> 'a option) \<Rightarrow> nat \<Rightarrow> (mstate \<Rightarrow> 'a option) \<Rightarrow> mstate \<Rightarrow> 'a option"
where
  "star_iter m 0 k st = k st"
| "star_iter m (Suc n) k st =
     (case m (\<lambda>st'. if length (fst st') < length (fst st) then star_iter m n k st' else None) st of
        Some x \<Rightarrow> Some x
      | None \<Rightarrow> k st)"

primrec rmatch :: "regex \<Rightarrow> bool \<Rightarrow> bool \<Rightarrow> string \<Rightarrow> (mstate \<Rightarrow> 'a option) \<Rightarrow> mstate \<Rightarrow> 'a option" where
  "rmatch Eps ic ml inp k st = k st"
| "rmatch (Cls neg cs) ic ml inp k st =
     (case fst st of
        [] \<Rightarrow> None
      | c # r \<Rightarrow> if cls_match ic neg cs c then k (r, snd st) else None)"
| "rmatch (Seq a b) ic ml inp k st = rmatch a ic ml inp (rmatch b ic ml inp k) st"
| "rmatch (Alt a b) ic ml inp k st =
     (case rmatch a ic ml inp k st of Some x \<Rightarrow> Some x | None \<Rightarrow> rmatch b ic ml inp k st)"
| "rmatch (Star a) ic ml inp k st = star_iter (rmatch a ic ml inp) (length (fst st)) k st"
| "rmatch (Grp i a) ic ml inp k st =
     rmatch a ic ml inp
       (\<lambda>st'. k (fst st', (i, take (length (fst st) - length (fst st')) (fst st)) # snd st')) st"
| "rmatch Bol ic ml inp k st = (if at_line_start ml inp (fst st) then k st else None)"

text \<open>
  A successful match: where it starts, the matched text (\<^verbatim>\<open>match[0]\<close>) and the
  captures (\<^verbatim>\<open>match[i]\<close>, absent when group \<open>i\<close> did not take part).
\<close>

record RegExpMatch =
  m_index :: nat
  m_all :: string
  m_groups :: "(nat \<times> string) list"

definition match_at :: "RegExp \<Rightarrow> string \<Rightarrow> nat \<Rightarrow> RegExpMatch option" where
  "match_at re s i =
     rmatch (pattern re) (ignoreCase re) (multiline re) s
       (\<lambda>st. Some \<lparr>m_index = i,
                    m_all = take (length (drop i s) - length (fst st)) (drop i s),
                    m_groups = snd st\<rparr>)
       (drop i s, [])"

primrec search_from :: "RegExp \<Rightarrow> string \<Rightarrow> nat \<Rightarrow> nat \<Rightarrow> RegExpMatch option" where
  "search_from re s i 0 = None"
| "search_from re s i (Suc n) =
     (case match_at re s i of Some m \<Rightarrow> Some m | None \<Rightarrow> search_from re s (Suc i) n)"

text \<open>\<^verbatim>\<open>re.exec(s)\<close> from position \<open>i\<close>: the leftmost start position that matches.\<close>

definition regex_exec :: "RegExp \<Rightarrow> string \<Rightarrow> nat \<Rightarrow> RegExpMatch option" where
  "regex_exec re s i = search_from re s i (Suc (length s) - i)"

text \<open>\<^verbatim>\<open>re.test(s)\<close> and \<^verbatim>\<open>s.match(re)\<close> for a regular expression without the \<^verbatim>\<open>g\<close> flag.\<close>

definition regex_test :: "RegExp \<Rightarrow> string \<Rightarrow> bool" where
  "regex_test re s = (regex_exec re s 0 \<noteq> None)"

definition string_match :: "string \<Rightarrow> RegExp \<Rightarrow> RegExpMatch option" where
  "string_match s re = regex_exec re s 0"

text \<open>
  \<^verbatim>\<open>s.match(re)\<close> with the \<^verbatim>\<open>g\<close> flag: the texts of all matches from left to right,
  each search starting where the previous match ended (one further after an empty
  match). JavaScript gives \<^verbatim>\<open>null\<close> for no match: here the empty list.
\<close>

primrec match_all_from :: "RegExp \<Rightarrow> string \<Rightarrow> nat \<Rightarrow> nat \<Rightarrow> string list" where
  "match_all_from re s i 0 = []"
| "match_all_from re s i (Suc n) =
     (case regex_exec re s i of
        None \<Rightarrow> []
      | Some m \<Rightarrow>
          m_all m #
          match_all_from re s
            (if m_all m = [] then Suc (m_index m) else m_index m + length (m_all m)) n)"

definition string_match_global :: "string \<Rightarrow> RegExp \<Rightarrow> string list" where
  "string_match_global s re = match_all_from re s 0 (Suc (length s))"

definition group :: "RegExpMatch \<Rightarrow> nat \<Rightarrow> string option" where
  "group m i = map_of (m_groups m) i"

text \<open>Decimal digits of an index, for the template strings that build keys and labels.\<close>

fun nat_to_string :: "nat \<Rightarrow> string" where
  "nat_to_string n =
     (if n < 10 then [chars_digit ! n]
      else nat_to_string (n div 10) @ [chars_digit ! (n mod 10)])"

section \<open>Data model\<close>

text \<open>
  The types of \<^verbatim>\<open>types/documents.ts\<close> and the interfaces of the services. A field value
  is \<^verbatim>\<open>string | number | null\<close>. Field names that several interfaces share carry a
  prefix here (\<open>ocr_\<close>, \<open>box_\<close>, \<open>fp_\<close>, \<open>doc_\<close>, \<open>d_\<close>); \<^verbatim>\<open>value\<close>, \<^verbatim>\<open>text\<close> and
  \<^verbatim>\<open>type\<close> are \<open>field_value\<close>, \<open>ocr_text\<close> and \<open>fp_type\<close>.
\<close>

datatype DocType = W2 | T1099_INT | T1099_DIV | T1099_NEC | T1098_E | UNKNOWN

datatype fvalue = VStr string | VNum jsnum | VNull

type_synonym bbox = "rat \<times> rat \<times> rat \<times> rat"

record FieldSource =
  documentId :: string
  page :: nat
  bbox :: "bbox option"
  textSnippet :: "string option"

record ExtractedField =
  key :: string
  label :: string
  field_value :: fvalue
  confidence :: rat
  source :: "FieldSource option"

record ExtractedDocument =
  doc_id :: string
  doc_type :: DocType
  doc_fields :: "ExtractedField list"

record BoundingBox =
  box_text :: string
  box_bbox :: bbox
  box_confidence :: rat

record OCRResult =
  ocr_text :: string
  ocr_confidence :: rat
  boundingBoxes :: "BoundingBox list option"

record File =
  file_name :: string
  file_bytes :: "nat list"

text \<open>What a \<^verbatim>\<open>throw\<close> or a rejected promise carries: an \<^verbatim>\<open>Error\<close> with its message, or another value.\<close>

datatype thrown = Error string | NonError

definition error_message :: "thrown \<Rightarrow> string" where
  "error_message e = (case e of Error m \<Rightarrow> m | NonError \<Rightarrow> ''Unknown error'')"

text \<open>
  An \<^verbatim>\<open>OCRProvider\<close> is its \<^verbatim>\<open>extractText\<close>: the promise it returns is fulfilled with a
  result (\<open>Inr\<close>) or rejected (\<open>Inl\<close>).
\<close>

type_synonym OCRProvider = "File \<Rightarrow> thrown + OCRResult"

datatype FieldType = TCurrency | TText | TSsn | TEin | TDate

record FieldPattern =
  fp_key :: string
  fp_label :: string
  patterns :: "RegExp list"
  fp_type :: FieldType
  required :: bool
  validation :: "(fvalue \<Rightarrow> bool) option"

section \<open>Field parsers (formParsers.ts)\<close>

subsection \<open>Value coercions of \<open>TaxFormParser\<close>\<close>

definition parseCurrency :: "string \<Rightarrow> fvalue" where
  "parseCurrency t =
     (let cleaned = filter (\<lambda>c. c \<notin> set (''$,'' @ chars_space)) t;
          v = parseFloat cleaned
      in if v = NaN then VNull else VNum v)"

definition parseText :: "RegExpMatch \<Rightarrow> fvalue" where
  "parseText m =
     (let whole = (if trim (m_all m) \<noteq> [] then VStr (trim (m_all m)) else VNull)
      in case group m 1 of
           None \<Rightarrow> whole
         | Some g \<Rightarrow> if trim g \<noteq> [] then VStr (trim g) else whole)"

definition parseSSN :: "string \<Rightarrow> fvalue" where
  "parseSSN t = (let cleaned = filter is_digit t in if length cleaned = 9 then VStr cleaned else VNull)"

definition parseEIN :: "string \<Rightarrow> fvalue" where
  "parseEIN t = (let cleaned = filter is_digit t in if length cleaned = 9 then VStr cleaned else VNull)"

definition re_digit :: regex where
  "re_digit = Cls False chars_digit"

definition re_space :: regex where
  "re_space = Cls False chars_space"

text \<open>\<^verbatim>\<open>/(\d{1,2})[\/\-](\d{1,2})[\/\-](\d{2,4})/\<close>\<close>

definition date_regex :: RegExp where
  "date_regex =
     \<lparr>pattern = Seqs [Grp 1 (Seq re_digit (RepUpTo 1 re_digit)), Cls False ''/-'',
                      Grp 2 (Seq re_digit (RepUpTo 1 re_digit)), Cls False ''/-'',
                      Grp 3 (Seq (Rep 2 re_digit) (RepUpTo 2 re_digit))],
      ignoreCase = False, multiline = False\<rparr>"

text \<open>The three groups of \<open>date_regex\<close> take part in every match, so the last branch is never taken.\<close>

definition parseDate :: "string \<Rightarrow> fvalue" where
  "parseDate t =
     (case string_match t date_regex of
        None \<Rightarrow> VNull
      | Some dm \<Rightarrow>
          (case (group dm 1, group dm 2, group dm 3) of
             (Some month, Some day, Some year) \<Rightarrow>
               (let fullYear = (if length year = 2 then ''20'' @ year else year)
                in VStr (fullYear @ ''-'' @ padStart0 2 month @ ''-'' @ padStart0 2 day))
           | _ \<Rightarrow> VNull))"

definition findBoundingBox :: "string \<Rightarrow> BoundingBox list option \<Rightarrow> bbox option" where
  "findBoundingBox t boxes =
     (case boxes of
        None \<Rightarrow> None
      | Some bs \<Rightarrow>
          (case find (\<lambda>b. str_includes (box_text b) t \<or> str_includes t (box_text b)) bs of
             None \<Rightarrow> None
           | Some b \<Rightarrow> Some (box_bbox b)))"

subsection \<open>\<open>TaxFormParser.extractField\<close>\<close>

text \<open>
  The loop over the regular expressions of one field pattern: the first expression that
  matches and whose coerced value is not \<^verbatim>\<open>null\<close> and passes the validation gives the
  field; \<open>None\<close> is the \<^verbatim>\<open>null\<close> returned when none does. The coercions of currency,
  SSN, EIN and date are applied to \<^verbatim>\<open>match[0]\<close>, the whole matched text.
\<close>

definition coerce :: "FieldType \<Rightarrow> RegExpMatch \<Rightarrow> fvalue" where
  "coerce ty m =
     (case ty of
        TCurrency \<Rightarrow> parseCurrency (m_all m)
      | TText \<Rightarrow> parseText m
      | TSsn \<Rightarrow> parseSSN (m_all m)
      | TEin \<Rightarrow> parseEIN (m_all m)
      | TDate \<Rightarrow> parseDate (m_all m))"

primrec extractField_loop ::
  "string \<Rightarrow> FieldPattern \<Rightarrow> OCRResult \<Rightarrow> RegExp list \<Rightarrow> ExtractedField option" where
  "extractField_loop txt p ocr [] = None"
| "extractField_loop txt p ocr (re # res) =
     (case string_match txt re of
        None \<Rightarrow> extractField_loop txt p ocr res
      | Some m \<Rightarrow>
          (let v = coerce (fp_type p) m
           in if v \<noteq> VNull \<and> (case validation p of None \<Rightarrow> True | Some ok \<Rightarrow> ok v) then
                Some \<lparr>key = fp_key p, label = fp_label p, field_value = v, confidence = 0.8,
                      source = Some \<lparr>documentId = [], page = 1,
                                      bbox = findBoundingBox (m_all m) (boundingBoxes ocr),
                                      textSnippet = Some (m_all m)\<rparr>\<rparr>
              else extractField_loop txt p ocr res))"

definition extractField :: "string \<Rightarrow> FieldPattern \<Rightarrow> OCRResult \<Rightarrow> ExtractedField option" where
  "extractField txt p ocr = extractField_loop txt p ocr (patterns p)"

subsection \<open>\<open>TaxFormParser.postProcessFields\<close>\<close>

text \<open>\<^verbatim>\<open>/\$[\d,]+\.?\d*/g\<close>\<close>

definition currency_regex :: RegExp where
  "currency_regex =
     \<lparr>pattern = Seqs [Chr CHR ''$'', Plus (Cls False (chars_digit @ '','')), Opt (Chr CHR ''.''),
                      Star re_digit],
      ignoreCase = False, multiline = False\<rparr>"

text \<open>\<^verbatim>\<open>.sort((a, b) => b - a)\<close>: a stable sort into descending order.\<close>

primrec insert_desc :: "jsnum \<Rightarrow> jsnum list \<Rightarrow> jsnum list" where
  "insert_desc a [] = [a]"
| "insert_desc a (b # bs) = (if num_lt a b then b # insert_desc a bs else a # b # bs)"

definition sort_desc :: "jsnum list \<Rightarrow> jsnum list" where
  "sort_desc xs = foldr insert_desc xs []"

text \<open>
  \<^verbatim>\<open>toLocaleString\<close> formats a number for the locale of the host; it is a parameter
  of every function that reaches it.
\<close>

definition autoField :: "(jsnum \<Rightarrow> string) \<Rightarrow> string \<Rightarrow> string \<Rightarrow> jsnum \<Rightarrow> ExtractedField" where
  "autoField toLocaleString k l a =
     \<lparr>key = k, label = l, field_value = VNum a, confidence = 0.6,
      source = Some \<lparr>documentId = [], page = 1, bbox = None,
                      textSnippet = Some (''$'' @ toLocaleString a)\<rparr>\<rparr>"

definition postProcessFields ::
  "(jsnum \<Rightarrow> string) \<Rightarrow> ExtractedField list \<Rightarrow> OCRResult \<Rightarrow> ExtractedField list" where
  "postProcessFields toLocaleString fs ocr =
     (if length fs = 0 then
        (let currencyMatches = string_match_global (ocr_text ocr) currency_regex
         in if 2 \<le> length currencyMatches then
              (let amounts =
                     sort_desc (filter (\<lambda>amount. num_gt amount (Fin 100))
                       (map (\<lambda>m. parseFloat (filter (\<lambda>c. c \<notin> set ''$,'') m)) currencyMatches))
               in fs
                  @ (if 1 \<le> length amounts
                     then [autoField toLocaleString ''wages'' ''Wages (Auto-detected)'' (amounts ! 0)]
                     else [])
                  @ (if 2 \<le> length amounts
                     then [autoField toLocaleString ''federalTaxWithheld''
                             ''Federal Tax Withheld (Auto-detected)'' (amounts ! 1)]
                     else []))
            else fs)
      else fs)"

subsection \<open>\<open>TaxFormParser.parseDocument\<close>\<close>

definition extractFields :: "FieldPattern list \<Rightarrow> OCRResult \<Rightarrow> ExtractedField list" where
  "extractFields fieldPatterns ocr =
     concat (map (\<lambda>p. case extractField (ocr_text ocr) p ocr of None \<Rightarrow> [] | Some f \<Rightarrow> [f])
       fieldPatterns)"

definition TaxFormParser_parseDocument ::
  "(jsnum \<Rightarrow> string) \<Rightarrow> FieldPattern list \<Rightarrow> OCRResult \<Rightarrow> ExtractedField list" where
  "TaxFormParser_parseDocument toLocaleString fieldPatterns ocr =
     postProcessFields toLocaleString (extractFields fieldPatterns ocr) ocr"

subsection \<open>\<open>W2Parser\<close> and \<open>Form1099NECParser\<close>: literal field lists\<close>

text \<open>One element of the literal arrays that the two overriding \<^verbatim>\<open>parseDocument\<close> methods return.\<close>

definition fixedField :: "string \<Rightarrow> string \<Rightarrow> fvalue \<Rightarrow> string \<Rightarrow> ExtractedField" where
  "fixedField k l v snippet =
     \<lparr>key = k, label = l, field_value = v, confidence = 0.99,
      source = Some \<lparr>documentId = [], page = 1, bbox = None, textSnippet = Some snippet\<rparr>\<rparr>"

definition W2Parser_parseDocument :: "OCRResult \<Rightarrow> ExtractedField list" where
  "W2Parser_parseDocument ocr =
     [fixedField ''employerName'' ''Employer Name'' (VStr ''University of Pittsburgh'')
        ''University of Pittsburgh'',
      fixedField ''employerEIN'' ''Employer EIN'' (VStr ''25-0965591'') ''25-0965591'',
      fixedField ''employeeName'' ''Employee Name'' (VStr ''Elizabeth A. Darling'')
        ''Elizabeth A. Darling'',
      fixedField ''wages'' ''Wages, Tips, Other Compensation (Box 1)'' (VNum (Fin 44629.35))
        ''Box 1 - $44,629.35'',
      fixedField ''federalTaxWithheld'' ''Federal Income Tax Withheld (Box 2)'' (VNum (Fin 7631.62))
        ''Box 2 - $7,631.62'',
      fixedField ''socialSecurityWages'' ''Social Security Wages (Box 3)'' (VNum (Fin 48736.35))
        ''Box 3 - $48,736.35'',
      fixedField ''socialSecurityTax'' ''Social Security Tax Withheld (Box 4)'' (VNum (Fin 3021.65))
        ''Box 4 - $3,021.65'',
      fixedField ''medicareWages'' ''Medicare Wages and Tips (Box 5)'' (VNum (Fin 48736.35))
        ''Box 5 - $48,736.35'',
      fixedField ''medicareTax'' ''Medicare Tax Withheld (Box 6)'' (VNum (Fin 706.68))
        ''Box 6 - $706.68'',
      fixedField ''nonqualifiedPlans'' ''Nonqualified Plans (Box 11)'' (VNum (Fin 1000))
        ''Box 11 - $1,000.00'',
      fixedField ''stateWages'' ''State Wages (Box 16)'' (VNum (Fin 47808.35))
        ''Box 16 - $47,808.35'',
      fixedField ''stateTaxWithheld'' ''State Income Tax Withheld (Box 17)'' (VNum (Fin 1467.72))
        ''Box 17 - $1,467.72'',
      fixedField ''localWages'' ''Local Wages (Box 18)'' (VNum (Fin 47808.35))
        ''Box 18 - $47,808.35'',
      fixedField ''localTaxWithheld'' ''Local Income Tax Withheld (Box 19)'' (VNum (Fin 693.22))
        ''Box 19 - $693.22'']"

definition Form1099NECParser_parseDocument :: "OCRResult \<Rightarrow> ExtractedField list" where
  "Form1099NECParser_parseDocument ocr =
     [fixedField ''payerName'' ''Payer Name'' (VStr ''Cannon Tools Co'') ''Cannon Tools Co'',
      fixedField ''payerTIN'' ''Payer TIN'' (VStr ''10-9920202'') ''10-9920202'',
      fixedField ''payerPhone'' ''Payer Phone'' (VStr ''(+1) 517-200-9968'') ''(+1) 517-200-9968'',
      fixedField ''payerAddress'' ''Payer Address''
        (VStr ''2426 North Catherine St, Atlanta, GA 30019'')
        ''2426 North Catherine St, Atlanta, GA 30019'',
      fixedField ''recipientTIN'' ''Recipient TIN'' (VStr ''101-42-0202'') ''101-42-0202'',
      fixedField ''accountNumber'' ''Account Number'' (VStr ''020202070'') ''020202070'',
      fixedField ''nonemployeeCompensation'' ''Nonemployee Compensation (Box 1)'' (VNum (Fin 1000))
        ''Box 1 - $1,000.00'',
      fixedField ''directSales'' ''Payer Made Direct Sales $5,000+ (Box 2)'' (VStr ''Yes'')
        ''Box 2 - X (checked)'',
      fixedField ''federalTaxWithheld'' ''Federal Income Tax Withheld (Box 4)'' (VNum (Fin 100))
        ''Box 4 - $100.00'']"

subsection \<open>\<open>W2Parser.postProcessFields\<close>: the cross-field check\<close>

text \<open>
  \<^verbatim>\<open>fields.find(...)?.value\<close> is \<^verbatim>\<open>undefined\<close> (\<open>None\<close>) when no field has the key.
  The operands of \<^verbatim>\<open>federalTax > wages * 0.5\<close> are converted to numbers; the
  conversion of a string is the parameter \<open>toNumber\<close>.
\<close>

definition truthy :: "fvalue option \<Rightarrow> bool" where
  "truthy v =
     (case v of
        None \<Rightarrow> False
      | Some VNull \<Rightarrow> False
      | Some (VStr s) \<Rightarrow> s \<noteq> []
      | Some (VNum n) \<Rightarrow> n \<noteq> NaN \<and> n \<noteq> Fin 0)"

definition as_number :: "(string \<Rightarrow> jsnum) \<Rightarrow> fvalue option \<Rightarrow> jsnum" where
  "as_number toNumber v =
     (case v of
        None \<Rightarrow> NaN
      | Some VNull \<Rightarrow> Fin 0
      | Some (VStr s) \<Rightarrow> toNumber s
      | Some (VNum n) \<Rightarrow> n)"

definition num_half :: "jsnum \<Rightarrow> jsnum" where
  "num_half a = (case a of Fin x \<Rightarrow> Fin (x * 0.5) | PInf \<Rightarrow> PInf | NInf \<Rightarrow> NInf | NaN \<Rightarrow> NaN)"

primrec update_first :: "('a \<Rightarrow> bool) \<Rightarrow> ('a \<Rightarrow> 'a) \<Rightarrow> 'a list \<Rightarrow> 'a list" where
  "update_first P g [] = []"
| "update_first P g (x # xs) = (if P x then g x # xs else x # update_first P g xs)"

definition flagUnusuallyHigh :: "ExtractedField \<Rightarrow> ExtractedField" where
  "flagUnusuallyHigh f =
     f\<lparr>confidence := max 0.3 (confidence f - 0.4),
       label := label f @ '' (Unusually High - Please Verify)''\<rparr>"

definition W2Parser_postProcessFields ::
  "(jsnum \<Rightarrow> string) \<Rightarrow> (string \<Rightarrow> jsnum) \<Rightarrow> ExtractedField list \<Rightarrow> OCRResult \<Rightarrow> ExtractedField list"
where
  "W2Parser_postProcessFields toLocaleString toNumber fs ocr =
     (let fs1 = postProcessFields toLocaleString fs ocr;
          wages = map_option field_value (find (\<lambda>f. key f = ''wages'') fs1);
          federalTax = map_option field_value (find (\<lambda>f. key f = ''federalTaxWithheld'') fs1)
      in if truthy wages \<and> truthy federalTax
            \<and> num_gt (as_number toNumber federalTax) (num_half (as_number toNumber wages))
         then update_first (\<lambda>f. key f = ''federalTaxWithheld'') flagUnusuallyHigh fs1
         else fs1)"

subsection \<open>Field patterns of \<open>Form1099INTParser\<close> and \<open>Form1099DIVParser\<close>\<close>

definition rx_i :: "regex \<Rightarrow> RegExp" where
  "rx_i r = \<lparr>pattern = r, ignoreCase = True, multiline = False\<rparr>"

definition rx_m :: "regex \<Rightarrow> RegExp" where
  "rx_m r = \<lparr>pattern = r, ignoreCase = False, multiline = True\<rparr>"

text \<open>\<^verbatim>\<open>[^\$]*\$?([\d,]+\.?\d*)\<close>, the common tail of the currency patterns.\<close>

definition amount_tail :: regex where
  "amount_tail =
     Seqs [Star (Cls True ''$''), Opt (Chr CHR ''$''),
           Grp 1 (Seqs [Plus (Cls False (chars_digit @ '','')), Opt (Chr CHR ''.''), Star re_digit])]"

text \<open>\<^verbatim>\<open>[:\s]*([^\n\r]+)\<close> and \<^verbatim>\<open>[A-Z][A-Za-z\s&.,]+\<close>, the parts of the name patterns.\<close>

definition name_tail :: regex where
  "name_tail = Seq (Star (Cls False ('':'' @ chars_space))) (Grp 1 (Plus (Cls True chars_newline)))"

definition name_head :: regex where
  "name_head =
     Seq (Cls False chars_upper) (Plus (Cls False (chars_upper @ chars_lower @ chars_space @ ''&.,'')))"

text \<open>\<^verbatim>\<open>[:\s]*(\d{2}-?\d{7})\<close>\<close>

definition tin_tail :: regex where
  "tin_tail =
     Seq (Star (Cls False ('':'' @ chars_space)))
         (Grp 1 (Seqs [Rep 2 re_digit, Opt (Chr CHR ''-''), Rep 7 re_digit]))"

definition interestIncome_validation :: "fvalue \<Rightarrow> bool" where
  "interestIncome_validation v =
     (case v of VNum n \<Rightarrow> num_ge n (Fin 0) \<and> num_le n (Fin 1000000) | _ \<Rightarrow> False)"

definition Form1099INT_fieldPatterns :: "FieldPattern list" where
  "Form1099INT_fieldPatterns =
     [\<lparr>fp_key = ''payerName'', fp_label = ''Payer Name'',
       patterns =
         [rx_i (Seq (Alt (Lit ''Payer'') (Alt (Lit ''Bank'') (Lit ''Institution''))) name_tail),
          rx_m (Seq Bol (Grp 1 (Seq name_head
                  (Alt (Lit ''Bank'') (Alt (Lit ''Credit Union'')
                    (Alt (Lit ''Financial'') (Lit ''Investment'')))))))],
       fp_type = TText, required = True, validation = None\<rparr>,
      \<lparr>fp_key = ''payerTIN'', fp_label = ''Payer TIN'',
       patterns = [rx_i (Seq (Lit ''TIN'') tin_tail), rx_i (Seq (Lit ''Tax ID'') tin_tail)],
       fp_type = TEin, required = False, validation = None\<rparr>,
      \<lparr>fp_key = ''interestIncome'', fp_label = ''Interest Income (Box 1)'',
       patterns =
         [rx_i (Seqs [Lit ''Box'', Star re_space, Lit ''1'', amount_tail]),
          rx_i (Seq (Lit ''Interest income'') amount_tail)],
       fp_type = TCurrency, required = True, validation = Some interestIncome_validation\<rparr>,
      \<lparr>fp_key = ''earlyWithdrawalPenalty'', fp_label = ''Early Withdrawal Penalty (Box 2)'',
       patterns =
         [rx_i (Seqs [Lit ''Box'', Star re_space, Lit ''2'', amount_tail]),
          rx_i (Seq (Lit ''Early withdrawal'') amount_tail)],
       fp_type = TCurrency, required = False, validation = None\<rparr>,
      \<lparr>fp_key = ''federalTaxWithheld'', fp_label = ''Federal Income Tax Withheld (Box 4)'',
       patterns =
         [rx_i (Seqs [Lit ''Box'', Star re_space, Lit ''4'', amount_tail]),
          rx_i (Seqs [Lit ''Federal'', Star Dot, Lit ''withheld'', amount_tail])],
       fp_type = TCurrency, required = False, validation = None\<rparr>]"

definition Form1099DIV_fieldPatterns :: "FieldPattern list" where
  "Form1099DIV_fieldPatterns =
     [\<lparr>fp_key = ''payerName'', fp_label = ''Payer Name'',
       patterns =
         [rx_i (Seq (Alt (Lit ''Payer'') (Alt (Lit ''Company'') (Lit ''Corporation''))) name_tail),
          rx_m (Seq Bol (Grp 1 (Seq name_head
                  (Alt (Lit ''Inc'') (Alt (Lit ''LLC'') (Alt (Lit ''Corp'')
                    (Alt (Lit ''Investment'') (Lit ''Fund'')))))))) ],
       fp_type = TText, required = True, validation = None\<rparr>,
      \<lparr>fp_key = ''ordinaryDividends'', fp_label = ''Ordinary Dividends (Box 1a)'',
       patterns =
         [rx_i (Seqs [Lit ''Box'', Star re_space, Lit ''1'', Opt (Chr CHR ''a''), amount_tail]),
          rx_i (Seq (Lit ''Ordinary dividends'') amount_tail)],
       fp_type = TCurrency, required = True, validation = None\<rparr>,
      \<lparr>fp_key = ''qualifiedDividends'', fp_label = ''Qualified Dividends (Box 1b)'',
       patterns =
         [rx_i (Seqs [Lit ''Box'', Star re_space, Lit ''1b'', amount_tail]),
          rx_i (Seq (Lit ''Qualified dividends'') amount_tail)],
       fp_type = TCurrency, required = False, validation = None\<rparr>,
      \<lparr>fp_key = ''capitalGainDistributions'', fp_label = ''Capital Gain Distributions (Box 2a)'',
       patterns =
         [rx_i (Seqs [Lit ''Box'', Star re_space, Lit ''2a'', amount_tail]),
          rx_i (Seq (Lit ''Capital gain'') amount_tail)],
       fp_type = TCurrency, required = False, validation = None\<rparr>,
      \<lparr>fp_key = ''federalTaxWithheld'', fp_label = ''Federal Income Tax Withheld (Box 4)'',
       patterns =
         [rx_i (Seqs [Lit ''Box'', Star re_space, Lit ''4'', amount_tail]),
          rx_i (Seqs [Lit ''Federal'', Star Dot, Lit ''withheld'', amount_tail])],
       fp_type = TCurrency, required = False, validation = None\<rparr>]"

subsection \<open>The parser classes and \<open>createFormParser\<close>\<close>

datatype Parser = W2Parser | Form1099INTParser | Form1099DIVParser | Form1099NECParser

definition createFormParser :: "DocType \<Rightarrow> Parser option" where
  "createFormParser docType =
     (case docType of
        W2 \<Rightarrow> Some W2Parser
      | T1099_INT \<Rightarrow> Some Form1099INTParser
      | T1099_DIV \<Rightarrow> Some Form1099DIVParser
      | T1099_NEC \<Rightarrow> Some Form1099NECParser
      | _ \<Rightarrow> None)"

text \<open>\<^verbatim>\<open>parser.parseDocument(ocrResult)\<close>, dispatched on the class of the parser.\<close>

definition Parser_parseDocument :: "(jsnum \<Rightarrow> string) \<Rightarrow> Parser \<Rightarrow> OCRResult \<Rightarrow> ExtractedField list" where
  "Parser_parseDocument toLocaleString p ocr =
     (case p of
        W2Parser \<Rightarrow> W2Parser_parseDocument ocr
      | Form1099INTParser \<Rightarrow> TaxFormParser_parseDocument toLocaleString Form1099INT_fieldPatterns ocr
      | Form1099DIVParser \<Rightarrow> TaxFormParser_parseDocument toLocaleString Form1099DIV_fieldPatterns ocr
      | Form1099NECParser \<Rightarrow> Form1099NECParser_parseDocument ocr)"

section \<open>The parsing service (documentParsingService.ts)\<close>

subsection \<open>The classification table\<close>

record DocumentTypePattern =
  p_type :: DocType
  p_filename :: "RegExp list"
  p_content :: "RegExp list"
  p_confidence :: rat

text \<open>\<^verbatim>\<open>\s+\<close> and \<^verbatim>\<open>.*\<close>\<close>

definition sp :: regex where
  "sp = Plus re_space"

definition any :: regex where
  "any = Star Dot"

definition documentTypePatterns :: "DocumentTypePattern list" where
  "documentTypePatterns =
     [\<lparr>p_type = W2,
       p_filename =
         [rx_i (Seqs [Lit ''w'', Opt (Chr CHR ''-''), Lit ''2'']),
          rx_i (Seqs [Lit ''wage'', any, Lit ''tax'', any, Lit ''statement''])],
       p_content =
         [rx_i (Seqs [Lit ''form'', sp, Lit ''w'', Opt (Chr CHR ''-''), Lit ''2'']),
          rx_i (Seqs [Lit ''wage'', sp, Lit ''and'', sp, Lit ''tax'', sp, Lit ''statement'']),
          rx_i (Seqs [Lit ''box'', sp, Lit ''1'', any, Lit ''wages''])],
       p_confidence = 0.9\<rparr>,
      \<lparr>p_type = T1099_INT,
       p_filename =
         [rx_i (Seqs [Lit ''1099'', any, Lit ''int'']),
          rx_i (Seqs [Lit ''interest'', any, Lit ''income''])],
       p_content =
         [rx_i (Seqs [Lit ''form'', sp, Lit ''1099-int'']),
          rx_i (Seqs [Lit ''interest'', sp, Lit ''income'']),
          rx_i (Seqs [Lit ''box'', sp, Lit ''1'', any, Lit ''interest''])],
       p_confidence = 0.85\<rparr>,
      \<lparr>p_type = T1099_DIV,
       p_filename =
         [rx_i (Seqs [Lit ''1099'', any, Lit ''div'']),
          rx_i (Lit ''dividend'')],
       p_content =
         [rx_i (Seqs [Lit ''form'', sp, Lit ''1099-div'']),
          rx_i (Seqs [Lit ''dividend'', Opt (Chr CHR ''s''), sp, Lit ''and'', sp, Lit ''distributions'']),
          rx_i (Seqs [Lit ''ordinary'', sp, Lit ''dividends''])],
       p_confidence = 0.85\<rparr>,
      \<lparr>p_type = T1099_NEC,
       p_filename =
         [rx_i (Seqs [Lit ''1099'', any, Lit ''nec'']),
          rx_i (Lit ''nonemployee'')],
       p_content =
         [rx_i (Seqs [Lit ''form'', sp, Lit ''1099-nec'']),
          rx_i (Seqs [Lit ''nonemployee'', sp, Lit ''compensation''])],
       p_confidence = 0.85\<rparr>,
      \<lparr>p_type = T1098_E,
       p_filename =
         [rx_i (Seqs [Lit ''1098'', any, Lit ''e'']),
          rx_i (Seqs [Lit ''student'', any, Lit ''loan''])],
       p_content =
         [rx_i (Seqs [Lit ''form'', sp, Lit ''1098-e'']),
          rx_i (Seqs [Lit ''student'', sp, Lit ''loan'', sp, Lit ''interest''])],
       p_confidence = 0.8\<rparr>]"

subsection \<open>\<open>detectDocumentType\<close>\<close>

record Detection =
  d_type :: DocType
  d_confidence :: rat

text \<open>
  One of the two inner loops: every expression that matches \<open>s\<close> counts one match and
  adds \<open>w\<close> to the confidence.
\<close>

definition count_matches :: "RegExp list \<Rightarrow> string \<Rightarrow> rat \<Rightarrow> nat \<times> rat \<Rightarrow> nat \<times> rat" where
  "count_matches res s w acc =
     foldl (\<lambda>(matches, confidence) re.
              if regex_test re s then (matches + 1, confidence + w) else (matches, confidence))
       acc res"

text \<open>
  The body of the outer loop up to the comparison with the best match: the values of
  \<^verbatim>\<open>matches\<close> and \<^verbatim>\<open>confidence\<close> for one table entry.
\<close>

definition candidate_score :: "string \<Rightarrow> string \<Rightarrow> DocumentTypePattern \<Rightarrow> nat \<times> rat" where
  "candidate_score lowerFilename lowerText p =
     (let (matches, confidence) =
            count_matches (p_content p) lowerText 0.6
              (count_matches (p_filename p) lowerFilename 0.4 (0, 0))
      in (matches, if 0 < matches then min 1.0 confidence * p_confidence p else confidence))"

definition detect_step :: "string \<Rightarrow> string \<Rightarrow> Detection \<Rightarrow> DocumentTypePattern \<Rightarrow> Detection" where
  "detect_step lowerFilename lowerText bestMatch p =
     (let (matches, confidence) = candidate_score lowerFilename lowerText p
      in if 0 < matches \<and> d_confidence bestMatch < confidence
         then \<lparr>d_type = p_type p, d_confidence = confidence\<rparr>
         else bestMatch)"

definition detectDocumentTypeWith :: "DocumentTypePattern list \<Rightarrow> string \<Rightarrow> string \<Rightarrow> Detection" where
  "detectDocumentTypeWith table filename txt =
     (let lowerFilename = toLowerCase filename;
          lowerText = toLowerCase txt;
          bestMatch = foldl (detect_step lowerFilename lowerText)
                        \<lparr>d_type = UNKNOWN, d_confidence = 0\<rparr> table
      in if d_confidence bestMatch < 0.3 then \<lparr>d_type = UNKNOWN, d_confidence = 0.1\<rparr>
         else bestMatch)"

definition detectDocumentType :: "string \<Rightarrow> string \<Rightarrow> Detection" where
  "detectDocumentType filename txt = detectDocumentTypeWith documentTypePatterns filename txt"

subsection \<open>\<open>performGenericExtraction\<close>\<close>

text \<open>\<^verbatim>\<open>/[A-Z][a-z]+(?:\s+[A-Z][a-z]+)+/g\<close>\<close>

definition name_regex :: RegExp where
  "name_regex =
     \<lparr>pattern = Seqs [Cls False chars_upper, Plus (Cls False chars_lower),
                      Plus (Seqs [sp, Cls False chars_upper, Plus (Cls False chars_lower)])],
      ignoreCase = False, multiline = False\<rparr>"

definition genericSource :: "string \<Rightarrow> string \<Rightarrow> FieldSource option" where
  "genericSource docId m =
     Some \<lparr>documentId = docId, page = 1, bbox = None, textSnippet = Some m\<rparr>"

text \<open>The two object literals pushed by the function.\<close>

definition amountField :: "string \<Rightarrow> nat \<Rightarrow> string \<Rightarrow> jsnum \<Rightarrow> ExtractedField" where
  "amountField docId index m v =
     \<lparr>key = ''amount_'' @ nat_to_string index, label = ''Amount '' @ nat_to_string (index + 1),
      field_value = VNum v, confidence = 0.5, source = genericSource docId m\<rparr>"

definition nameField :: "string \<Rightarrow> nat \<Rightarrow> string \<Rightarrow> ExtractedField" where
  "nameField docId index m =
     \<lparr>key = ''name_'' @ nat_to_string index, label = ''Name '' @ nat_to_string (index + 1),
      field_value = VStr (trim m), confidence = 0.4, source = genericSource docId m\<rparr>"

definition performGenericExtraction :: "OCRResult \<Rightarrow> string \<Rightarrow> ExtractedField list" where
  "performGenericExtraction ocr docId =
     (let txt = ocr_text ocr;
          currencyMatches = string_match_global txt currency_regex;
          amounts =
            concat (map (\<lambda>(index, m).
                      let v = parseFloat (filter (\<lambda>c. c \<notin> set ''$,'') m)
                      in if v \<noteq> NaN \<and> num_gt v (Fin 0) then [amountField docId index m v] else [])
                    (enumerate 0 currencyMatches));
          nameMatches = string_match_global txt name_regex;
          names = map (\<lambda>(index, m). nameField docId index m) (enumerate 0 (take 3 nameMatches))
      in amounts @ names)"

subsection \<open>\<open>validateAndEnhanceFields\<close>\<close>

text \<open>The three statements of the function mapped over the fields, in their order.\<close>

definition negativeValuePenalty :: "ExtractedField \<Rightarrow> ExtractedField" where
  "negativeValuePenalty f =
     (case field_value f of
        VNum n \<Rightarrow> if num_lt n (Fin 0) then f\<lparr>confidence := max 0.1 (confidence f - 0.3)\<rparr> else f
      | _ \<Rightarrow> f)"

definition ocrQualityPenalty :: "OCRResult \<Rightarrow> ExtractedField \<Rightarrow> ExtractedField" where
  "ocrQualityPenalty ocr f =
     (if ocr_confidence ocr < 0.8 then f\<lparr>confidence := max 0.1 (confidence f - 0.2)\<rparr> else f)"

definition reviewFlag :: "ExtractedField \<Rightarrow> ExtractedField" where
  "reviewFlag f = (if confidence f < 0.7 then f\<lparr>label := label f @ '' (Needs Review)''\<rparr> else f)"

definition validateAndEnhanceFields :: "ExtractedField list \<Rightarrow> OCRResult \<Rightarrow> ExtractedField list" where
  "validateAndEnhanceFields fs ocr =
     map (\<lambda>f. reviewFlag (ocrQualityPenalty ocr (negativeValuePenalty f))) fs"

subsection \<open>\<open>parseDocument\<close> and \<open>parseMultipleDocuments\<close>\<close>

text \<open>
  The callback run on every field a parser returned: stamp the document id, then damp
  the confidence when the detection was uncertain.
\<close>

definition stampDocumentId :: "string \<Rightarrow> ExtractedField \<Rightarrow> ExtractedField" where
  "stampDocumentId docId f =
     (case source f of
        None \<Rightarrow> f
      | Some s \<Rightarrow> f\<lparr>source := Some (s\<lparr>documentId := docId\<rparr>)\<rparr>)"

definition detectionDamping :: "Detection \<Rightarrow> ExtractedField \<Rightarrow> ExtractedField" where
  "detectionDamping detectionResult f =
     (if d_confidence detectionResult < 0.8
      then f\<lparr>confidence := max 0.1 (confidence f * d_confidence detectionResult)\<rparr>
      else f)"

text \<open>
  The only step of the \<^verbatim>\<open>try\<close> block that can throw is the provider's \<^verbatim>\<open>extractText\<close>;
  the \<^verbatim>\<open>catch\<close> block rethrows with a new message.
\<close>

definition parseDocument ::
  "(jsnum \<Rightarrow> string) \<Rightarrow> OCRProvider \<Rightarrow> File \<Rightarrow> string \<Rightarrow> thrown + ExtractedDocument" where
  "parseDocument toLocaleString ocrProvider file docId =
     (case ocrProvider file of
        Inl e \<Rightarrow> Inl (Error (''Failed to parse document: '' @ error_message e))
      | Inr ocrResult \<Rightarrow>
          (let detectionResult = detectDocumentType (file_name file) (ocr_text ocrResult);
               fs = (case createFormParser (d_type detectionResult) of
                       Some parser \<Rightarrow>
                         map (\<lambda>f. detectionDamping detectionResult (stampDocumentId docId f))
                           (Parser_parseDocument toLocaleString parser ocrResult)
                     | None \<Rightarrow> performGenericExtraction ocrResult docId)
           in Inr \<lparr>doc_id = docId, doc_type = d_type detectionResult,
                   doc_fields = validateAndEnhanceFields fs ocrResult\<rparr>))"

text \<open>
  \<^verbatim>\<open>Promise.allSettled\<close> turns the outcome of every promise into a record and is itself
  always fulfilled; the outcomes are kept in the order of the inputs.
\<close>

datatype 'a settled = Fulfilled 'a | Rejected thrown

definition allSettled :: "(thrown + 'a) list \<Rightarrow> 'a settled list" where
  "allSettled ps = map (\<lambda>p. case p of Inl e \<Rightarrow> Rejected e | Inr v \<Rightarrow> Fulfilled v) ps"

definition is_fulfilled :: "'a settled \<Rightarrow> bool" where
  "is_fulfilled r = (case r of Fulfilled _ \<Rightarrow> True | Rejected _ \<Rightarrow> False)"

text \<open>
  \<^verbatim>\<open>result.value\<close>: the value of a fulfilled outcome. A rejected outcome has no such
  property and the expression is \<^verbatim>\<open>undefined\<close>, here \<open>None\<close>. The \<^verbatim>\<open>map\<close> gives one
  entry for every outcome it is applied to, so an entry of the returned array is a
  document (\<open>Some\<close>) or \<^verbatim>\<open>undefined\<close>; only the \<^verbatim>\<open>filter\<close> before it removes outcomes.
\<close>

definition settled_value :: "'a settled \<Rightarrow> 'a option" where
  "settled_value r = (case r of Fulfilled v \<Rightarrow> Some v | Rejected _ \<Rightarrow> None)"

definition parseMultipleDocuments ::
  "(jsnum \<Rightarrow> string) \<Rightarrow> OCRProvider \<Rightarrow> (File \<times> string) list
   \<Rightarrow> thrown + ExtractedDocument option list"
where
  "parseMultipleDocuments toLocaleString ocrProvider files =
     (let results = allSettled (map (\<lambda>(file, docId).
                        parseDocument toLocaleString ocrProvider file docId) files)
      in Inr (map settled_value (filter is_fulfilled results)))"

section \<open>The hybrid provider (ocrProviders.ts)\<close>

record HybridOCRProvider =
  tesseractProvider :: OCRProvider
  fallbackProvider :: "OCRProvider option"

definition degradedResult :: "File \<Rightarrow> OCRResult" where
  "degradedResult file =
     \<lparr>ocr_text = ''Unable to extract text from '' @ file_name file
                  @ ''. Please verify the document is clear and readable.'',
      ocr_confidence = 0.1, boundingBoxes = Some []\<rparr>"

definition Hybrid_extractText :: "HybridOCRProvider \<Rightarrow> File \<Rightarrow> thrown + OCRResult" where
  "Hybrid_extractText h file =
     (case tesseractProvider h file of
        Inl e \<Rightarrow> Inr (degradedResult file)
      | Inr ocrResult \<Rightarrow>
          if ocr_confidence ocrResult < 0.7 \<and> fallbackProvider h \<noteq> None then
            (case fallbackProvider h of
               None \<Rightarrow> Inr ocrResult
             | Some fallback \<Rightarrow>
                 (case fallback file of
                    Inr fallbackResult \<Rightarrow>
                      Inr (if ocr_confidence ocrResult < ocr_confidence fallbackResult
                           then fallbackResult else ocrResult)
                  | Inl e \<Rightarrow> Inr ocrResult))
          else Inr ocrResult)"

section \<open>Definitions that state the claims\<close>

text \<open>
  The classifier as the specification words it: the number of patterns that match, and
  the score \<open>min(1.0, 0.4 \<times> filename matches + 0.6 \<times> content matches) \<times> baseConfidence\<close>.
  Patterns are tested against the lower-cased filename and text, as the code does.
\<close>

definition matching :: "RegExp list \<Rightarrow> string \<Rightarrow> nat" where
  "matching res s = length (filter (\<lambda>re. regex_test re s) res)"

definition spec_score :: "string \<Rightarrow> string \<Rightarrow> DocumentTypePattern \<Rightarrow> rat" where
  "spec_score filename txt c =
     min 1 (0.4 * of_nat (matching (p_filename c) (toLowerCase filename))
            + 0.6 * of_nat (matching (p_content c) (toLowerCase txt)))
     * p_confidence c"

text \<open>The scenario of the specification for \<open>extractField\<close>: the text and the field specification.\<close>

definition scenario_text :: string where
  "scenario_text = ''Box 1 - Wages, tips, other compensation: $44,629.35''"

text \<open>\<^verbatim>\<open>/Box\s*1[^\$]*\$?([\d,]+\.?\d*)/i\<close>\<close>

definition scenario_regex :: RegExp where
  "scenario_regex = rx_i (Seqs [Lit ''Box'', Star re_space, Lit ''1'', amount_tail])"

definition scenario_spec :: FieldPattern where
  "scenario_spec =
     \<lparr>fp_key = ''wages'', fp_label = ''Wages'', patterns = [scenario_regex],
      fp_type = TCurrency, required = True, validation = None\<rparr>"

text \<open>
  A regular expression never coerces when the currency coercion of the whole text of each
  of its matches is \<^verbatim>\<open>null\<close>.
\<close>

definition never_coerces :: "RegExp \<Rightarrow> bool" where
  "never_coerces re = (\<forall>txt m. string_match txt re = Some m \<longrightarrow> parseCurrency (m_all m) = VNull)"

text \<open>Providers and documents for the concrete instances below.\<close>

definition failing_provider :: OCRProvider where
  "failing_provider file =
     (if file_name file = ''b.pdf'' then Inl (Error ''OCR processing failed'')
      else Inr \<lparr>ocr_text = ''Paid $250.00'', ocr_confidence = 0.9, boundingBoxes = None\<rparr>)"

definition expected_document :: "string \<Rightarrow> ExtractedDocument" where
  "expected_document docId =
     \<lparr>doc_id = docId, doc_type = UNKNOWN,
      doc_fields =
        [\<lparr>key = ''amount_0'', label = ''Amount 1 (Needs Review)'', field_value = VNum (Fin 250),
          confidence = 0.5,
          source = Some \<lparr>documentId = docId, page = 1, bbox = None,
                          textSnippet = Some ''$250.00''\<rparr>\<rparr>]\<rparr>"

definition low_quality_provider :: OCRProvider where
  "low_quality_provider file = Inr \<lparr>ocr_text = ''Payer: Acme Bank'', ocr_confidence = 0.6, boundingBoxes = None\<rparr>"

section \<open>The bounds of the matcher are never reached\<close>

text \<open>
  A matcher whose continuation always fails, fails. So an iteration of a star at the end
  of the input adds nothing, and the star gives the same result with any larger bound on
  the number of iterations: the bound \<open>length (fst st)\<close> cuts no match short.
\<close>

lemma star_iter_fail:
  assumes "\<And>st. m (\<lambda>st'. None) st = None"
  shows "star_iter m n (\<lambda>st'. None) st = None"
proof (induction n arbitrary: st)
  case 0
  then show ?case by simp
next
  case (Suc n)
  have "(\<lambda>st'. if length (fst st') < length (fst st)
               then star_iter m n (\<lambda>st'. None) st' else None) = (\<lambda>st'. None)"
    using Suc by auto
  then show ?case using assms by simp
qed

lemma rmatch_fail: "rmatch a ic ml inp (\<lambda>st'. (None :: 'r option)) st = None"
proof (induction a arbitrary: st)
  case (Seq a b)
  have "rmatch b ic ml inp (\<lambda>st'. (None :: 'r option)) = (\<lambda>st'. None)"
    by (rule ext) (rule Seq.IH(2))
  then show ?case using Seq.IH(1) by simp
next
  case (Star a)
  then show ?case by (simp add: star_iter_fail)
qed (auto split: list.splits)

lemma star_iter_more_fuel:
  "length (fst st) \<le> n \<Longrightarrow>
   star_iter (rmatch a ic ml inp) (Suc n) k st = star_iter (rmatch a ic ml inp) n k st"
proof (induction n arbitrary: st)
  case 0
  then have "(\<lambda>st'. if length (fst st') < length (fst st)
               then star_iter (rmatch a ic ml inp) 0 k st' else None) = (\<lambda>st'. None)"
    by auto
  then show ?case by (simp add: rmatch_fail)
next
  case (Suc n)
  have "(\<lambda>st'. if length (fst st') < length (fst st)
               then star_iter (rmatch a ic ml inp) (Suc n) k st' else None)
      = (\<lambda>st'. if length (fst st') < length (fst st)
               then star_iter (rmatch a ic ml inp) n k st' else None)"
  proof
    fix st'
    show "(if length (fst st') < length (fst st)
               then star_iter (rmatch a ic ml inp) (Suc n) k st' else None)
      = (if length (fst st') < length (fst st)
               then star_iter (rmatch a ic ml inp) n k st' else None)"
      using Suc.prems Suc.IH[of st'] by auto
  qed
  then show ?case by (simp del: star_iter.simps(2) add: star_iter.simps(2)[of _ "Suc n"] star_iter.simps(2)[of _ n])
qed

lemma star_iter_fuel:
  "rmatch (Star a) ic ml inp k st = star_iter (rmatch a ic ml inp) (length (fst st) + d) k st"
proof (induction d)
  case 0
  then show ?case by simp
next
  case (Suc d)
  then show ?case using star_iter_more_fuel[of st "length (fst st) + d" a ic ml inp k] by simp
qed

text \<open>
  Whatever a matcher returns was returned by its continuation, on a state that has
  consumed at least as much of the input.
\<close>

lemma star_iter_result:
  assumes "\<And>k st x. m k st = Some x \<Longrightarrow> \<exists>st'. length (fst st') \<le> length (fst st) \<and> k st' = Some x"
  shows "star_iter m n k st = Some x \<Longrightarrow> \<exists>st'. length (fst st') \<le> length (fst st) \<and> k st' = Some x"
proof (induction n arbitrary: st)
  case 0
  then show ?case by (intro exI[of _ st]) simp
next
  case (Suc n)
  let ?c = "\<lambda>st'. if length (fst st') < length (fst st) then star_iter m n k st' else None"
  show ?case
  proof (cases "m ?c st")
    case None
    then have "k st = Some x" using Suc.prems by simp
    then show ?thesis by (intro exI[of _ st]) simp
  next
    case (Some y)
    then have "y = x" using Suc.prems by simp
    then obtain st1 where st1: "length (fst st1) \<le> length (fst st)" "?c st1 = Some x"
      using assms[of ?c st y] Some by auto
    then have "star_iter m n k st1 = Some x" by (auto split: if_splits)
    then obtain st' where "length (fst st') \<le> length (fst st1)" "k st' = Some x"
      using Suc.IH by blast
    then show ?thesis using st1(1) by (meson order_trans)
  qed
qed

lemma rmatch_result:
  "rmatch a ic ml inp k st = Some x \<Longrightarrow>
   \<exists>st'. length (fst st') \<le> length (fst st) \<and> k st' = Some x"
proof (induction a arbitrary: k st x)
  case Eps
  then show ?case by (intro exI[of _ st]) simp
next
  case (Cls neg cs)
  then obtain c r where "fst st = c # r" "k (r, snd st) = Some x"
    by (cases "fst st") (auto split: if_splits)
  then show ?case by (intro exI[of _ "(r, snd st)"]) simp
next
  case (Seq a b)
  from Seq.prems obtain st1 where st1: "length (fst st1) \<le> length (fst st)"
      "rmatch b ic ml inp k st1 = Some x"
    using Seq.IH(1)[of "rmatch b ic ml inp k" st] by auto
  then obtain st' where "length (fst st') \<le> length (fst st1)" "k st' = Some x"
    using Seq.IH(2) by blast
  then show ?case using st1(1) by (meson order_trans)
next
  case (Alt a b)
  show ?case
  proof (cases "rmatch a ic ml inp k st")
    case None
    then show ?thesis using Alt.prems Alt.IH(2) by simp
  next
    case (Some y)
    then show ?thesis using Alt.prems Alt.IH(1) by simp
  qed
next
  case (Star a)
  have "star_iter (rmatch a ic ml inp) (length (fst st)) k st = Some x"
    using Star.prems by simp
  then show ?case by (rule star_iter_result[rotated]) (rule Star.IH)
next
  case (Grp i a)
  let ?k = "\<lambda>st'. k (fst st', (i, take (length (fst st) - length (fst st')) (fst st)) # snd st')"
  from Grp.prems obtain st1 where "length (fst st1) \<le> length (fst st)" "?k st1 = Some x"
    using Grp.IH[of ?k st] by auto
  then show ?case by (intro exI[of _ "(fst st1, (i, take (length (fst st) - length (fst st1)) (fst st)) # snd st1)"]) simp
next
  case Bol
  then show ?case by (intro exI[of _ st]) (simp split: if_splits)
qed

text \<open>
  A match found from position \<open>i\<close> starts at \<open>i\<close> or later, so every round of the global
  match moves the start position forward, and a larger bound on the number of rounds
  gives the same list of matches.
\<close>

lemma match_at_index: "match_at re s i = Some m \<Longrightarrow> m_index m = i"
  unfolding match_at_def by (drule rmatch_result) auto

lemma search_from_index: "search_from re s i n = Some m \<Longrightarrow> i \<le> m_index m"
proof (induction n arbitrary: i)
  case 0
  then show ?case by simp
next
  case (Suc n)
  show ?case
  proof (cases "match_at re s i")
    case None
    then have "search_from re s (Suc i) n = Some m" using Suc.prems by simp
    then have "Suc i \<le> m_index m" by (rule Suc.IH)
    then show ?thesis by simp
  next
    case (Some m')
    then show ?thesis using Suc.prems match_at_index by fastforce
  qed
qed

lemma match_all_more_fuel:
  "Suc (length s) \<le> i + n \<Longrightarrow> match_all_from re s i (Suc n) = match_all_from re s i n"
proof (induction n arbitrary: i)
  case 0
  then have "regex_exec re s i = None" by (simp add: regex_exec_def)
  then show ?case by simp
next
  case (Suc n)
  show ?case
  proof (cases "regex_exec re s i")
    case None
    then show ?thesis by simp
  next
    case (Some m)
    let ?j = "if m_all m = [] then Suc (m_index m) else m_index m + length (m_all m)"
    have "i \<le> m_index m" using Some search_from_index by (simp add: regex_exec_def)
    then have "Suc i \<le> ?j" by (cases "m_all m") auto
    then have "Suc (length s) \<le> ?j + n" using Suc.prems by linarith
    then have "match_all_from re s ?j (Suc n) = match_all_from re s ?j n" by (rule Suc.IH)
    then show ?thesis using Some
      by (simp del: match_all_from.simps(2)
          add: match_all_from.simps(2)[of re s i "Suc n"] match_all_from.simps(2)[of re s i n])
  qed
qed

lemma match_all_fuel:
  "string_match_global s re = match_all_from re s 0 (Suc (length s) + d)"
proof (induction d)
  case 0
  then show ?case by (simp add: string_match_global_def)
next
  case (Suc d)
  then show ?case using match_all_more_fuel[of s 0 "Suc (length s) + d" re] by simp
qed

section \<open>The classifier\<close>

lemma count_matches_eq:
  "count_matches res s w (m, c) = (m + matching res s, c + w * of_nat (matching res s))"
  unfolding count_matches_def matching_def
  by (induction res arbitrary: m c) (simp_all add: algebra_simps)

lemma candidate_score_eq:
  "candidate_score lf lt p =
     (matching (p_filename p) lf + matching (p_content p) lt,
      min 1 (0.4 * of_nat (matching (p_filename p) lf) + 0.6 * of_nat (matching (p_content p) lt))
        * p_confidence p)"
  unfolding candidate_score_def count_matches_eq by (auto simp: Let_def)

lemma candidate_score_pos:
  "0 < snd (candidate_score lf lt p) \<Longrightarrow> 0 < fst (candidate_score lf lt p)"
  unfolding candidate_score_eq
  by (cases "matching (p_filename p) lf + matching (p_content p) lt = 0") auto

text \<open>
  The best match never has a negative confidence, so the guard \<open>matches > 0\<close> of the
  loop body is implied by the comparison with the best match.
\<close>

lemma detect_step_eq:
  assumes "0 \<le> d_confidence b"
  shows "detect_step lf lt b p =
     (if d_confidence b < snd (candidate_score lf lt p)
      then \<lparr>d_type = p_type p, d_confidence = snd (candidate_score lf lt p)\<rparr> else b)"
proof -
  have "d_confidence b < snd (candidate_score lf lt p) \<Longrightarrow> 0 < fst (candidate_score lf lt p)"
    using assms candidate_score_pos[of lf lt p] by linarith
  then show ?thesis
    unfolding detect_step_def by (auto simp: case_prod_beta Let_def)
qed

lemma detect_step_nonneg:
  "0 \<le> d_confidence b \<Longrightarrow> 0 \<le> d_confidence (detect_step lf lt b p)"
  by (simp add: detect_step_eq)

lemma foldl_detect_unchanged:
  "0 \<le> d_confidence b \<Longrightarrow> \<forall>c\<in>set tbl. snd (candidate_score lf lt c) \<le> d_confidence b \<Longrightarrow>
   foldl (detect_step lf lt) b tbl = b"
  by (induction tbl) (auto simp: detect_step_eq)

lemma foldl_detect_below:
  "0 \<le> d_confidence b \<Longrightarrow> d_confidence b < t \<Longrightarrow>
   \<forall>c\<in>set tbl. snd (candidate_score lf lt c) < t \<Longrightarrow>
   d_confidence (foldl (detect_step lf lt) b tbl) < t"
proof (induction tbl arbitrary: b)
  case Nil
  then show ?case by simp
next
  case (Cons c cs)
  have "0 \<le> d_confidence (detect_step lf lt b c)"
    using Cons.prems(1) by (rule detect_step_nonneg)
  moreover have "d_confidence (detect_step lf lt b c) < t"
    using Cons.prems by (simp add: detect_step_eq)
  ultimately show ?case using Cons.IH Cons.prems(3) by simp
qed

text \<open>
  The loop over a table \<open>pre @ c # post\<close> ends with \<open>c\<close> when \<open>c\<close> beats the initial
  best match, every earlier entry scores strictly less and no later entry scores more.
\<close>

lemma foldl_detect_first_max:
  assumes "0 \<le> d_confidence b"
    and "d_confidence b < snd (candidate_score lf lt c)"
    and "\<forall>x\<in>set pre. snd (candidate_score lf lt x) < snd (candidate_score lf lt c)"
    and "\<forall>x\<in>set post. snd (candidate_score lf lt x) \<le> snd (candidate_score lf lt c)"
  shows "foldl (detect_step lf lt) b (pre @ c # post) =
     \<lparr>d_type = p_type c, d_confidence = snd (candidate_score lf lt c)\<rparr>"
proof -
  let ?s = "\<lambda>x. snd (candidate_score lf lt x)"
  let ?b = "foldl (detect_step lf lt) b pre"
  let ?n = "\<lparr>d_type = p_type c, d_confidence = ?s c\<rparr>"
  have nonneg: "0 \<le> d_confidence b' \<Longrightarrow> 0 \<le> d_confidence (foldl (detect_step lf lt) b' xs)" for b' xs
    by (induction xs arbitrary: b') (simp_all add: detect_step_nonneg)
  have b1: "0 \<le> d_confidence ?b" using assms(1) by (rule nonneg)
  have b2: "d_confidence ?b < ?s c"
    using assms(1,2,3) by (rule foldl_detect_below)
  have step: "detect_step lf lt ?b c = ?n"
    using b1 b2 by (simp add: detect_step_eq)
  have "0 \<le> d_confidence ?n" using b1 b2 by simp
  then have "foldl (detect_step lf lt) ?n post = ?n"
    using assms(4) by (intro foldl_detect_unchanged) simp_all
  then show ?thesis using step by simp
qed

lemma spec_score_eq:
  "spec_score fn tx c = snd (candidate_score (toLowerCase fn) (toLowerCase tx) c)"
  by (simp add: spec_score_def candidate_score_eq)

text \<open>
  Claim C2. For every filename and text: the confidence the loop body computes for a
  candidate is \<open>min(1.0, 0.4 \<times> filename matches + 0.6 \<times> content matches) \<times> baseConfidence\<close>;
  when the \<open>i\<close>-th table entry scores at least 0.3, no entry scores more and every
  earlier entry scores strictly less, the classifier returns that entry's type with
  its score; when every entry scores below 0.3 it returns \<open>(UNKNOWN, 0.1)\<close>.
\<close>

theorem detectDocumentType_best_first:
  "snd (candidate_score (toLowerCase fn) (toLowerCase tx) c) = spec_score fn tx c
   \<and> (i < length documentTypePatterns
        \<and> 0.3 \<le> spec_score fn tx (documentTypePatterns ! i)
        \<and> (\<forall>x\<in>set documentTypePatterns.
              spec_score fn tx x \<le> spec_score fn tx (documentTypePatterns ! i))
        \<and> (\<forall>x\<in>set (take i documentTypePatterns).
              spec_score fn tx x < spec_score fn tx (documentTypePatterns ! i))
       \<longrightarrow> detectDocumentType fn tx =
             \<lparr>d_type = p_type (documentTypePatterns ! i),
              d_confidence = spec_score fn tx (documentTypePatterns ! i)\<rparr>)
   \<and> ((\<forall>x\<in>set documentTypePatterns. spec_score fn tx x < 0.3)
       \<longrightarrow> detectDocumentType fn tx = \<lparr>d_type = UNKNOWN, d_confidence = 0.1\<rparr>)"
proof (intro conjI impI)
  show "snd (candidate_score (toLowerCase fn) (toLowerCase tx) c) = spec_score fn tx c"
    by (simp add: spec_score_eq)
next
  let ?t = documentTypePatterns
  let ?b0 = "\<lparr>d_type = UNKNOWN, d_confidence = 0\<rparr>"
  let ?s = "\<lambda>x. snd (candidate_score (toLowerCase fn) (toLowerCase tx) x)"
  assume a: "i < length ?t \<and> 0.3 \<le> spec_score fn tx (?t ! i)
        \<and> (\<forall>x\<in>set ?t. spec_score fn tx x \<le> spec_score fn tx (?t ! i))
        \<and> (\<forall>x\<in>set (take i ?t). spec_score fn tx x < spec_score fn tx (?t ! i))"
  have split: "?t = take i ?t @ (?t ! i) # drop (Suc i) ?t"
    using a by (simp add: id_take_nth_drop)
  have post: "\<forall>x\<in>set (drop (Suc i) ?t). ?s x \<le> ?s (?t ! i)"
    using a by (metis in_set_dropD spec_score_eq)
  have pre: "\<forall>x\<in>set (take i ?t). ?s x < ?s (?t ! i)"
    using a by (simp add: spec_score_eq)
  have "foldl (detect_step (toLowerCase fn) (toLowerCase tx)) ?b0
          (take i ?t @ (?t ! i) # drop (Suc i) ?t) =
        \<lparr>d_type = p_type (?t ! i), d_confidence = ?s (?t ! i)\<rparr>"
    using a pre post by (intro foldl_detect_first_max) (simp_all add: spec_score_eq)
  then have "foldl (detect_step (toLowerCase fn) (toLowerCase tx)) ?b0 ?t =
        \<lparr>d_type = p_type (?t ! i), d_confidence = spec_score fn tx (?t ! i)\<rparr>"
    using split by (simp add: spec_score_eq)
  then show "detectDocumentType fn tx =
      \<lparr>d_type = p_type (?t ! i), d_confidence = spec_score fn tx (?t ! i)\<rparr>"
    using a by (simp add: detectDocumentType_def detectDocumentTypeWith_def Let_def)
next
  let ?t = documentTypePatterns
  let ?b0 = "\<lparr>d_type = UNKNOWN, d_confidence = 0\<rparr>"
  assume a: "\<forall>x\<in>set ?t. spec_score fn tx x < 0.3"
  have "d_confidence (foldl (detect_step (toLowerCase fn) (toLowerCase tx)) ?b0 ?t) < 0.3"
    using a foldl_detect_below[of ?b0 "0.3" ?t "toLowerCase fn" "toLowerCase tx"]
    by (simp add: spec_score_eq)
  then show "detectDocumentType fn tx = \<lparr>d_type = UNKNOWN, d_confidence = 0.1\<rparr>"
    by (simp add: detectDocumentType_def detectDocumentTypeWith_def Let_def)
qed

theorem detectDocumentType_best_first_witness:
  "detectDocumentType ''w2_2024.pdf'' [] = \<lparr>d_type = W2, d_confidence = 0.36\<rparr>
   \<and> detectDocumentType ''interest_income_1099.pdf'' ''Dividend summary''
       = \<lparr>d_type = T1099_INT, d_confidence = 0.34\<rparr>
   \<and> detectDocumentType ''notes.txt'' ''hello'' = \<lparr>d_type = UNKNOWN, d_confidence = 0.1\<rparr>"
proof -
  have h1: "0 < length documentTypePatterns
        \<and> 0.3 \<le> spec_score ''w2_2024.pdf'' [] (documentTypePatterns ! 0)
        \<and> (\<forall>x\<in>set documentTypePatterns.
              spec_score ''w2_2024.pdf'' [] x \<le> spec_score ''w2_2024.pdf'' [] (documentTypePatterns ! 0))
        \<and> (\<forall>x\<in>set (take 0 documentTypePatterns).
              spec_score ''w2_2024.pdf'' [] x < spec_score ''w2_2024.pdf'' [] (documentTypePatterns ! 0))"
    by code_simp
  have v1: "p_type (documentTypePatterns ! 0) = W2
        \<and> spec_score ''w2_2024.pdf'' [] (documentTypePatterns ! 0) = 0.36"
    by code_simp
  have h2: "1 < length documentTypePatterns
        \<and> 0.3 \<le> spec_score ''interest_income_1099.pdf'' ''Dividend summary'' (documentTypePatterns ! 1)
        \<and> (\<forall>x\<in>set documentTypePatterns.
              spec_score ''interest_income_1099.pdf'' ''Dividend summary'' x
              \<le> spec_score ''interest_income_1099.pdf'' ''Dividend summary'' (documentTypePatterns ! 1))
        \<and> (\<forall>x\<in>set (take 1 documentTypePatterns).
              spec_score ''interest_income_1099.pdf'' ''Dividend summary'' x
              < spec_score ''interest_income_1099.pdf'' ''Dividend summary'' (documentTypePatterns ! 1))"
    by code_simp
  have v2: "p_type (documentTypePatterns ! 1) = T1099_INT
        \<and> spec_score ''interest_income_1099.pdf'' ''Dividend summary'' (documentTypePatterns ! 1) = 0.34"
    by code_simp
  have h3: "\<forall>x\<in>set documentTypePatterns. spec_score ''notes.txt'' ''hello'' x < 0.3"
    by code_simp
  show ?thesis
    using detectDocumentType_best_first[of "''w2_2024.pdf''" "[]" _ 0] h1 v1
      detectDocumentType_best_first[of "''interest_income_1099.pdf''" "''Dividend summary''" _ 1] h2 v2
      detectDocumentType_best_first[of "''notes.txt''" "''hello''"] h3
    by simp
qed

section \<open>Field extraction\<close>

text \<open>
  Claim C1, evaluated on the code. The pattern matches the whole scenario text and its
  group captures \<open>44,629.35\<close>, whose coercion is 44629.35; but \<open>extractField\<close> coerces
  \<^verbatim>\<open>match[0]\<close>, the whole matched text, which \<open>parseFloat\<close> reads as \<open>NaN\<close>: the value
  is \<^verbatim>\<open>null\<close> and no field is returned.
\<close>

theorem extractField_scenario_rejected:
  "map_option (\<lambda>m. (m_all m, group m 1)) (string_match scenario_text scenario_regex)
     = Some (scenario_text, Some ''44,629.35'')
   \<and> parseCurrency ''44,629.35'' = VNum (Fin 44629.35)
   \<and> parseCurrency scenario_text = VNull
   \<and> extractField scenario_text scenario_spec ocr = None"
  by code_simp

subsection \<open>The currency patterns of the 1099 parsers\<close>

text \<open>
  A match of a regular expression that starts with a literal word starts with that word,
  up to case when the \<^verbatim>\<open>i\<close> flag is set.
\<close>

lemma Lit_Cons: "Lit (c # w) = Seq (Cls False [c]) (Lit w)"
  by (simp add: Lit_def Chr_def)

lemma rmatch_Lit:
  "rmatch (Seq (Lit w) r) ic ml inp k (u, caps) = Some x \<Longrightarrow>
   \<exists>pre rest. u = pre @ rest \<and> list_all2 (\<lambda>c y. cls_match ic False [c] y) w pre
      \<and> rmatch r ic ml inp k (rest, caps) = Some x"
proof (induction w arbitrary: u)
  case Nil
  then show ?case by (intro exI[of _ "[]"] exI[of _ u]) (simp add: Lit_def)
next
  case (Cons c w)
  from Cons.prems obtain y ys where u: "u = y # ys" and y: "cls_match ic False [c] y"
    and rest: "rmatch (Seq (Lit w) r) ic ml inp k (ys, caps) = Some x"
    by (cases u) (auto simp: Lit_Cons split: if_splits)
  from Cons.IH[OF rest] obtain pre rest' where
    "ys = pre @ rest'" "list_all2 (\<lambda>c y. cls_match ic False [c] y) w pre"
    "rmatch r ic ml inp k (rest', caps) = Some x" by blast
  then show ?case using u y
    by (intro exI[of _ "y # pre"] exI[of _ rest']) simp
qed

lemma match_at_prefix:
  assumes "match_at re s i = Some m" and "pattern re = Seq (Lit w) r"
  shows "\<exists>pre t. m_all m = pre @ t \<and> list_all2 (\<lambda>c y. cls_match (ignoreCase re) False [c] y) w pre"
proof -
  define k where "k = (\<lambda>st :: mstate. Some \<lparr>m_index = i,
                    m_all = take (length (drop i s) - length (fst st)) (drop i s),
                    m_groups = snd st\<rparr>)"
  have "rmatch (Seq (Lit w) r) (ignoreCase re) (multiline re) s k (drop i s, []) = Some m"
    using assms unfolding match_at_def k_def by simp
  from rmatch_Lit[OF this] obtain pre rest where pre: "drop i s = pre @ rest"
      "list_all2 (\<lambda>c y. cls_match (ignoreCase re) False [c] y) w pre"
      and r: "rmatch r (ignoreCase re) (multiline re) s k (rest, []) = Some m"
    by blast
  from rmatch_result[OF r] obtain st' where st': "length (fst st') \<le> length rest" "k st' = Some m"
    by auto
  have "m_all m = take (length (drop i s) - length (fst st')) (drop i s)"
    using st'(2) unfolding k_def by auto
  then have "m_all m = pre @ take (length rest - length (fst st')) rest"
    using st'(1) unfolding pre(1) by simp
  then show ?thesis using pre(2) by blast
qed

lemma search_from_match_at:
  "search_from re s i n = Some m \<Longrightarrow> \<exists>j. match_at re s j = Some m"
  by (induction n arbitrary: i) (auto split: option.splits)

lemma string_match_prefix:
  assumes "string_match s re = Some m" and "pattern re = Seq (Lit w) r"
  shows "\<exists>pre t. m_all m = pre @ t \<and> list_all2 (\<lambda>c y. cls_match (ignoreCase re) False [c] y) w pre"
proof -
  obtain j where "match_at re s j = Some m"
    using assms(1) search_from_match_at unfolding string_match_def regex_exec_def by blast
  then show ?thesis using assms(2) by (rule match_at_prefix)
qed

lemma parseCurrency_letter:
  assumes "x \<notin> set (chars_digit @ chars_space @ ''$,+-.I'')"
  shows "parseCurrency (x # t) = VNull"
proof -
  have nd: "\<not> is_digit x" and ns: "\<not> is_space x" using assms by (auto simp: is_digit_def is_space_def)
  have keep: "filter (\<lambda>c. c \<notin> set (''$,'' @ chars_space)) (x # t)
      = x # filter (\<lambda>c. c \<notin> set (''$,'' @ chars_space)) t"
    using assms by auto
  have "unsigned_literal (x # u) = NaN" for u
    using assms nd by (auto simp: unsigned_literal_def Let_def)
  then have "parseFloat (x # u) = NaN" for u
    using assms ns by (auto simp: parseFloat_def)
  then show ?thesis
    unfolding parseCurrency_def keep by (simp add: Let_def)
qed

lemma parseCurrency_Int:
  assumes "x2 \<notin> set (chars_space @ ''$,'')" and "x3 \<notin> set (chars_space @ ''$,f'')"
  shows "parseCurrency (CHR ''I'' # x2 # x3 # t) = VNull"
proof -
  have keep: "filter (\<lambda>c. c \<notin> set (''$,'' @ chars_space)) (CHR ''I'' # x2 # x3 # t)
      = CHR ''I'' # x2 # x3 # filter (\<lambda>c. c \<notin> set (''$,'' @ chars_space)) t"
    using assms by (auto simp: chars_space_def)
  have "unsigned_literal (CHR ''I'' # x2 # x3 # u) = NaN" for u
    using assms by (auto simp: unsigned_literal_def Let_def is_digit_def chars_digit_def)
  then have "parseFloat (CHR ''I'' # x2 # x3 # u) = NaN" for u
    by (auto simp: parseFloat_def is_space_def chars_space_def)
  then show ?thesis
    unfolding parseCurrency_def keep by (simp add: Let_def)
qed


lemma not_cls_match_letter:
  assumes "c \<in> set ''BEFOQC''" and "y \<in> set (chars_digit @ chars_space @ ''$,+-.I'')"
  shows "\<not> cls_match True False [c] y"
proof -
  have "list_all (\<lambda>c. list_all (\<lambda>y. \<not> cls_match True False [c] y)
          (chars_digit @ chars_space @ ''$,+-.I'')) ''BEFOQC''"
    by code_simp
  then show ?thesis using assms unfolding list_all_iff by blast
qed

lemma not_cls_match_I:
  assumes "y \<in> set (chars_digit @ chars_space @ ''$,+-.'')"
  shows "\<not> cls_match True False [CHR ''I''] y"
proof -
  have "list_all (\<lambda>y. \<not> cls_match True False [CHR ''I''] y) (chars_digit @ chars_space @ ''$,+-.'')"
    by code_simp
  then show ?thesis using assms unfolding list_all_iff by blast
qed

lemma not_cls_match_n:
  assumes "y \<in> set (chars_space @ ''$,'')"
  shows "\<not> cls_match True False [CHR ''n''] y"
proof -
  have "list_all (\<lambda>y. \<not> cls_match True False [CHR ''n''] y) (chars_space @ ''$,'')"
    by code_simp
  then show ?thesis using assms unfolding list_all_iff by blast
qed

lemma not_cls_match_t:
  assumes "y \<in> set (chars_space @ ''$,f'')"
  shows "\<not> cls_match True False [CHR ''t''] y"
proof -
  have "list_all (\<lambda>y. \<not> cls_match True False [CHR ''t''] y) (chars_space @ ''$,f'')"
    by code_simp
  then show ?thesis using assms unfolding list_all_iff by blast
qed

lemma never_coerces_letter:
  assumes "c \<in> set ''BEFOQC''"
  shows "never_coerces (rx_i (Seq (Lit (c # w)) r))"
  unfolding never_coerces_def
proof (intro allI impI)
  fix tx m
  assume "string_match tx (rx_i (Seq (Lit (c # w)) r)) = Some m"
  then obtain pre t where m: "m_all m = pre @ t"
    and pre: "list_all2 (\<lambda>c y. cls_match True False [c] y) (c # w) pre"
    using string_match_prefix[of tx "rx_i (Seq (Lit (c # w)) r)" m "c # w" r]
    by (auto simp: rx_i_def)
  then obtain y ys where "pre = y # ys" "cls_match True False [c] y"
    by (auto simp: list_all2_Cons1)
  then have "m_all m = y # (ys @ t)" "y \<notin> set (chars_digit @ chars_space @ ''$,+-.I'')"
    using m assms not_cls_match_letter by auto
  then show "parseCurrency (m_all m) = VNull"
    using parseCurrency_letter by simp
qed

lemma never_coerces_Int:
  "never_coerces (rx_i (Seq (Lit (CHR ''I'' # CHR ''n'' # CHR ''t'' # w)) r))"
  unfolding never_coerces_def
proof (intro allI impI)
  fix tx m
  let ?w = "CHR ''I'' # CHR ''n'' # CHR ''t'' # w"
  assume "string_match tx (rx_i (Seq (Lit ?w) r)) = Some m"
  then obtain pre t where m: "m_all m = pre @ t"
    and pre: "list_all2 (\<lambda>c y. cls_match True False [c] y) ?w pre"
    using string_match_prefix[of tx "rx_i (Seq (Lit ?w) r)" m ?w r]
    by (auto simp: rx_i_def)
  then obtain y1 y2 y3 ys where p: "pre = y1 # y2 # y3 # ys"
    and y: "cls_match True False [CHR ''I''] y1" "cls_match True False [CHR ''n''] y2"
      "cls_match True False [CHR ''t''] y3"
    by (auto simp: list_all2_Cons1)
  have y2: "y2 \<notin> set (chars_space @ ''$,'')" using y(2) not_cls_match_n by blast
  have y3: "y3 \<notin> set (chars_space @ ''$,f'')" using y(3) not_cls_match_t by blast
  show "parseCurrency (m_all m) = VNull"
  proof (cases "y1 = CHR ''I''")
    case True
    then show ?thesis using m p parseCurrency_Int[OF y2 y3] by simp
  next
    case False
    then have "y1 \<notin> set (chars_digit @ chars_space @ ''$,+-.I'')"
      using y(1) not_cls_match_I by auto
    then show ?thesis using m p parseCurrency_letter by simp
  qed
qed

lemma extractField_loop_never:
  "fp_type p = TCurrency \<Longrightarrow> list_all never_coerces res \<Longrightarrow>
   extractField_loop txt p ocr res = None"
  by (induction res) (auto simp: never_coerces_def coerce_def Let_def split: option.splits)

lemma Seqs_Cons: "Seqs (a # rs) = Seq a (Seqs rs)"
  by (simp add: Seqs_def)

text \<open>
  Beyond the scenario: every currency pattern of \<open>Form1099INTParser\<close> and
  \<open>Form1099DIVParser\<close> starts with a literal word, so the whole matched text starts
  with a letter and is never a number. On every text, none of their seven currency
  fields is extracted.
\<close>

theorem currency_fields_never_extracted:
  "map (\<lambda>p. (fp_key p, extractField txt p ocr))
     (filter (\<lambda>p. fp_type p = TCurrency) (Form1099INT_fieldPatterns @ Form1099DIV_fieldPatterns))
   = [(''interestIncome'', None), (''earlyWithdrawalPenalty'', None), (''federalTaxWithheld'', None),
      (''ordinaryDividends'', None), (''qualifiedDividends'', None),
      (''capitalGainDistributions'', None), (''federalTaxWithheld'', None)]"
  by (simp add: Form1099INT_fieldPatterns_def Form1099DIV_fieldPatterns_def extractField_def
      extractField_loop_never Seqs_Cons never_coerces_letter never_coerces_Int
      del: extractField_loop.simps)

section \<open>Classifier monotonicity\<close>

lemma matching_insert:
  "matching (xs @ r # ys) s = matching (xs @ ys) s + (if regex_test r s then 1 else 0)"
  by (simp add: matching_def)

text \<open>
  Claim C9. For a fixed filename and text, inserting one more content pattern that
  matches the text into a candidate's pattern list, at any position, does not decrease
  the confidence computed for the candidate. Base confidences are in \<open>[0, 1]\<close>; the
  proof uses that the candidate's is not negative.
\<close>

theorem candidate_score_content_monotone:
  "c \<in> set documentTypePatterns \<or> 0 \<le> p_confidence c \<Longrightarrow>
   regex_test r lt \<Longrightarrow> p_content c = xs @ ys \<Longrightarrow>
   snd (candidate_score lf lt c) \<le> snd (candidate_score lf lt (c\<lparr>p_content := xs @ r # ys\<rparr>))"
proof -
  assume r: "regex_test r lt" and pc: "p_content c = xs @ ys"
  assume "c \<in> set documentTypePatterns \<or> 0 \<le> p_confidence c"
  moreover have "\<forall>x\<in>set documentTypePatterns. 0 \<le> p_confidence x"
    by (simp add: documentTypePatterns_def)
  ultimately have b: "0 \<le> p_confidence c" by blast
  let ?a = "0.4 * of_nat (matching (p_filename c) lf) :: rat"
  let ?n = "matching (xs @ ys) lt"
  have "min 1 (?a + 0.6 * of_nat ?n) \<le> min 1 (?a + 0.6 * of_nat (?n + 1))"
    by (simp add: min_le_iff_disj algebra_simps)
  then have "min 1 (?a + 0.6 * of_nat ?n) * p_confidence c
      \<le> min 1 (?a + 0.6 * of_nat (?n + 1)) * p_confidence c"
    using b by (rule mult_right_mono)
  then show ?thesis
    using r pc by (simp add: candidate_score_eq matching_insert)
qed

text \<open>The W-2 entry of the table, extended with \<^verbatim>\<open>/wages/i\<close>, on the text \<open>box 1 wages\<close>.\<close>

theorem candidate_score_content_monotone_witness:
  "regex_test (rx_i (Lit ''wages'')) ''box 1 wages''
   \<and> documentTypePatterns ! 0 \<in> set documentTypePatterns
   \<and> p_content (documentTypePatterns ! 0) = p_content (documentTypePatterns ! 0) @ []
   \<and> snd (candidate_score ''scan.pdf'' ''box 1 wages'' (documentTypePatterns ! 0))
       \<le> snd (candidate_score ''scan.pdf'' ''box 1 wages''
               ((documentTypePatterns ! 0)\<lparr>p_content :=
                   p_content (documentTypePatterns ! 0) @ rx_i (Lit ''wages'') # []\<rparr>))"
proof -
  have h1: "regex_test (rx_i (Lit ''wages'')) ''box 1 wages''" by code_simp
  have h2: "documentTypePatterns ! 0 \<in> set documentTypePatterns"
    by (simp add: documentTypePatterns_def)
  have h3: "p_content (documentTypePatterns ! 0) = p_content (documentTypePatterns ! 0) @ []" by simp
  show ?thesis
    using candidate_score_content_monotone[OF disjI1[OF h2] h1 h3, of "''scan.pdf''"] h1 h2 by simp
qed

section \<open>The parser registry and the literal parsers\<close>

text \<open>
  Claim C7 fails for 1098-E: the type is in the classification table and is not
  \<open>UNKNOWN\<close>, and the factory has no parser for it.
\<close>

theorem createFormParser_1098E_counterexample:
  "T1098_E \<in> set (map p_type documentTypePatterns) \<and> T1098_E \<noteq> UNKNOWN
   \<and> createFormParser T1098_E = None"
  by (simp add: documentTypePatterns_def createFormParser_def)

text \<open>
  Claim C7, amended. The classification table lists W2, 1099_INT, 1099_DIV, 1099_NEC and
  1098_E; \<open>createFormParser\<close> returns a parser for the first four, each its own, and
  returns \<^verbatim>\<open>null\<close> exactly for 1098_E and \<open>UNKNOWN\<close>.
\<close>

theorem createFormParser_supported:
  "map p_type documentTypePatterns = [W2, T1099_INT, T1099_DIV, T1099_NEC, T1098_E]
   \<and> createFormParser W2 = Some W2Parser
   \<and> createFormParser T1099_INT = Some Form1099INTParser
   \<and> createFormParser T1099_DIV = Some Form1099DIVParser
   \<and> createFormParser T1099_NEC = Some Form1099NECParser
   \<and> (createFormParser t = None) = (t = T1098_E \<or> t = UNKNOWN)"
  by (cases t) (simp_all add: documentTypePatterns_def createFormParser_def)

text \<open>
  Claim C8. \<open>W2Parser.parseDocument\<close> and \<open>Form1099NECParser.parseDocument\<close> return the
  same list for any two recognition results: 14 fields for the W-2 parser and 9 for the
  1099-NEC parser, every one at confidence 0.99; the same holds when they are reached
  through the parser object.
\<close>

theorem hardcoded_parsers_ignore_input:
  "W2Parser_parseDocument ocr1 = W2Parser_parseDocument ocr2
   \<and> length (W2Parser_parseDocument ocr1) = 14
   \<and> list_all (\<lambda>f. confidence f = 0.99) (W2Parser_parseDocument ocr1)
   \<and> Form1099NECParser_parseDocument ocr1 = Form1099NECParser_parseDocument ocr2
   \<and> length (Form1099NECParser_parseDocument ocr1) = 9
   \<and> list_all (\<lambda>f. confidence f = 0.99) (Form1099NECParser_parseDocument ocr1)
   \<and> Parser_parseDocument fmt1 W2Parser ocr1 = Parser_parseDocument fmt2 W2Parser ocr2
   \<and> Parser_parseDocument fmt1 Form1099NECParser ocr1 = Parser_parseDocument fmt2 Form1099NECParser ocr2"
  by (simp add: W2Parser_parseDocument_def Form1099NECParser_parseDocument_def
      Parser_parseDocument_def fixedField_def)

section \<open>The hybrid provider never throws\<close>

text \<open>
  Claim C4. \<open>HybridOCRProvider.extractText\<close> is always fulfilled. It returns the primary
  result when that has confidence at least 0.7 or no fallback is configured; when the
  primary confidence is below 0.7 and a fallback is configured, the fallback's result if
  its confidence is higher and the primary result otherwise, also when the fallback
  fails; and when the primary provider fails, the placeholder result with confidence 0.1.
\<close>

theorem Hybrid_extractText_never_throws:
  "(\<exists>r. Hybrid_extractText h file = Inr r)
   \<and> (tesseractProvider h file = Inr p \<and> (0.7 \<le> ocr_confidence p \<or> fallbackProvider h = None)
        \<longrightarrow> Hybrid_extractText h file = Inr p)
   \<and> (tesseractProvider h file = Inr p \<and> ocr_confidence p < 0.7
        \<and> fallbackProvider h = Some fb \<and> fb file = Inr s
        \<longrightarrow> Hybrid_extractText h file = Inr (if ocr_confidence p < ocr_confidence s then s else p))
   \<and> (tesseractProvider h file = Inr p \<and> ocr_confidence p < 0.7
        \<and> fallbackProvider h = Some fb \<and> fb file = Inl e
        \<longrightarrow> Hybrid_extractText h file = Inr p)
   \<and> (tesseractProvider h file = Inl e
        \<longrightarrow> Hybrid_extractText h file = Inr (degradedResult file)
            \<and> ocr_confidence (degradedResult file) = 0.1
            \<and> ocr_text (degradedResult file)
                = ''Unable to extract text from '' @ file_name file
                  @ ''. Please verify the document is clear and readable.'')"
  by (auto simp: Hybrid_extractText_def degradedResult_def split: sum.splits option.splits)

text \<open>The four cases on concrete providers: primary fails; fallback better; fallback fails; primary at 0.7.\<close>

theorem Hybrid_extractText_never_throws_witness:
  "Hybrid_extractText
      \<lparr>tesseractProvider = (\<lambda>f. Inl (Error ''OCR worker not available'')), fallbackProvider = None\<rparr>
      \<lparr>file_name = ''scan.png'', file_bytes = []\<rparr>
     = Inr \<lparr>ocr_text = ''Unable to extract text from scan.png. Please verify the document is clear and readable.'',
            ocr_confidence = 0.1, boundingBoxes = Some []\<rparr>
   \<and> Hybrid_extractText
      \<lparr>tesseractProvider = (\<lambda>f. Inr \<lparr>ocr_text = ''blurry'', ocr_confidence = 0.5, boundingBoxes = None\<rparr>),
       fallbackProvider = Some (\<lambda>f. Inr \<lparr>ocr_text = ''sharp'', ocr_confidence = 0.9, boundingBoxes = None\<rparr>)\<rparr>
      \<lparr>file_name = ''scan.png'', file_bytes = []\<rparr>
     = Inr \<lparr>ocr_text = ''sharp'', ocr_confidence = 0.9, boundingBoxes = None\<rparr>
   \<and> Hybrid_extractText
      \<lparr>tesseractProvider = (\<lambda>f. Inr \<lparr>ocr_text = ''blurry'', ocr_confidence = 0.5, boundingBoxes = None\<rparr>),
       fallbackProvider = Some (\<lambda>f. Inl (Error ''OCR processing failed''))\<rparr>
      \<lparr>file_name = ''scan.png'', file_bytes = []\<rparr>
     = Inr \<lparr>ocr_text = ''blurry'', ocr_confidence = 0.5, boundingBoxes = None\<rparr>
   \<and> Hybrid_extractText
      \<lparr>tesseractProvider = (\<lambda>f. Inr \<lparr>ocr_text = ''clear'', ocr_confidence = 0.7, boundingBoxes = None\<rparr>),
       fallbackProvider = Some (\<lambda>f. Inr \<lparr>ocr_text = ''sharp'', ocr_confidence = 0.9, boundingBoxes = None\<rparr>)\<rparr>
      \<lparr>file_name = ''scan.png'', file_bytes = []\<rparr>
     = Inr \<lparr>ocr_text = ''clear'', ocr_confidence = 0.7, boundingBoxes = None\<rparr>"
  using
    Hybrid_extractText_never_throws[where
      h = "\<lparr>tesseractProvider = (\<lambda>f. Inl (Error ''OCR worker not available'')), fallbackProvider = None\<rparr>"
      and ?file = "\<lparr>file_name = ''scan.png'', file_bytes = []\<rparr>"
      and e = "Error ''OCR worker not available''"]
    Hybrid_extractText_never_throws[where
      h = "\<lparr>tesseractProvider = (\<lambda>f. Inr \<lparr>ocr_text = ''blurry'', ocr_confidence = 0.5, boundingBoxes = None\<rparr>),
            fallbackProvider = Some (\<lambda>f. Inr \<lparr>ocr_text = ''sharp'', ocr_confidence = 0.9, boundingBoxes = None\<rparr>)\<rparr>"
      and ?file = "\<lparr>file_name = ''scan.png'', file_bytes = []\<rparr>"
      and p = "\<lparr>ocr_text = ''blurry'', ocr_confidence = 0.5, boundingBoxes = None\<rparr>"
      and fb = "\<lambda>f. Inr \<lparr>ocr_text = ''sharp'', ocr_confidence = 0.9, boundingBoxes = None\<rparr>"
      and s = "\<lparr>ocr_text = ''sharp'', ocr_confidence = 0.9, boundingBoxes = None\<rparr>"]
    Hybrid_extractText_never_throws[where
      h = "\<lparr>tesseractProvider = (\<lambda>f. Inr \<lparr>ocr_text = ''blurry'', ocr_confidence = 0.5, boundingBoxes = None\<rparr>),
            fallbackProvider = Some (\<lambda>f. Inl (Error ''OCR processing failed''))\<rparr>"
      and ?file = "\<lparr>file_name = ''scan.png'', file_bytes = []\<rparr>"
      and p = "\<lparr>ocr_text = ''blurry'', ocr_confidence = 0.5, boundingBoxes = None\<rparr>"
      and fb = "\<lambda>f. Inl (Error ''OCR processing failed'')"
      and e = "Error ''OCR processing failed''"]
    Hybrid_extractText_never_throws[where
      h = "\<lparr>tesseractProvider = (\<lambda>f. Inr \<lparr>ocr_text = ''clear'', ocr_confidence = 0.7, boundingBoxes = None\<rparr>),
            fallbackProvider = Some (\<lambda>f. Inr \<lparr>ocr_text = ''sharp'', ocr_confidence = 0.9, boundingBoxes = None\<rparr>)\<rparr>"
      and ?file = "\<lparr>file_name = ''scan.png'', file_bytes = []\<rparr>"
      and p = "\<lparr>ocr_text = ''clear'', ocr_confidence = 0.7, boundingBoxes = None\<rparr>"]
  by (simp add: degradedResult_def)

section \<open>Batch isolation\<close>

text \<open>
  Claim C3. \<open>parseMultipleDocuments\<close> is always fulfilled. Its result has one entry for
  each input whose \<open>parseDocument\<close> was fulfilled, in input order, and each entry is that
  document (none is \<^verbatim>\<open>undefined\<close>): the outcomes of the failed inputs are removed and
  nothing else is. \<open>parseDocument\<close> is fulfilled exactly when the provider's recognition
  is. For three inputs of which the second's recognition throws, the result is the
  documents of the first and the third. The promises are modelled by their outcomes:
  each \<open>parseDocument\<close> is a function of the provider, the file and the id.
\<close>

theorem parseMultipleDocuments_isolates_failures:
  "parseMultipleDocuments fmt ocr files =
     Inr (map Some (concat (map (\<lambda>(file, docId).
            case parseDocument fmt ocr file docId of Inl e \<Rightarrow> [] | Inr d \<Rightarrow> [d]) files)))
   \<and> ((\<exists>d. parseDocument fmt ocr file docId = Inr d) = (\<exists>r. ocr file = Inr r))
   \<and> (ocr f1 = Inr r1 \<and> ocr f2 = Inl e \<and> ocr f3 = Inr r3
        \<longrightarrow> (\<exists>d1 d3. parseDocument fmt ocr f1 i1 = Inr d1 \<and> doc_id d1 = i1
                   \<and> parseDocument fmt ocr f3 i3 = Inr d3 \<and> doc_id d3 = i3
                   \<and> parseMultipleDocuments fmt ocr [(f1, i1), (f2, i2), (f3, i3)]
                       = Inr [Some d1, Some d3]))"
proof (intro conjI impI)
  show "parseMultipleDocuments fmt ocr files =
     Inr (map Some (concat (map (\<lambda>(file, docId).
            case parseDocument fmt ocr file docId of Inl e \<Rightarrow> [] | Inr d \<Rightarrow> [d]) files)))"
    unfolding parseMultipleDocuments_def allSettled_def settled_value_def is_fulfilled_def Let_def
    by (induction files) (auto split: sum.splits)
next
  show "(\<exists>d. parseDocument fmt ocr file docId = Inr d) = (\<exists>r. ocr file = Inr r)"
    by (cases "ocr file") (simp_all add: parseDocument_def Let_def)
next
  assume a: "ocr f1 = Inr r1 \<and> ocr f2 = Inl e \<and> ocr f3 = Inr r3"
  obtain d1 where d1: "parseDocument fmt ocr f1 i1 = Inr d1" "doc_id d1 = i1"
    using a by (simp add: parseDocument_def Let_def)
  obtain d3 where d3: "parseDocument fmt ocr f3 i3 = Inr d3" "doc_id d3 = i3"
    using a by (simp add: parseDocument_def Let_def)
  have "\<exists>m. parseDocument fmt ocr f2 i2 = Inl m"
    using a by (simp add: parseDocument_def)
  then have "parseMultipleDocuments fmt ocr [(f1, i1), (f2, i2), (f3, i3)] = Inr [Some d1, Some d3]"
    using d1 d3
    by (auto simp: parseMultipleDocuments_def allSettled_def settled_value_def is_fulfilled_def)
  then show "\<exists>d1 d3. parseDocument fmt ocr f1 i1 = Inr d1 \<and> doc_id d1 = i1
                   \<and> parseDocument fmt ocr f3 i3 = Inr d3 \<and> doc_id d3 = i3
                   \<and> parseMultipleDocuments fmt ocr [(f1, i1), (f2, i2), (f3, i3)]
                       = Inr [Some d1, Some d3]"
    using d1 d3 by blast
qed

text \<open>Three files, the recognition of \<open>b.pdf\<close> fails.\<close>

theorem parseMultipleDocuments_isolates_failures_witness:
  "parseMultipleDocuments (\<lambda>n. []) failing_provider
      [(\<lparr>file_name = ''a.pdf'', file_bytes = []\<rparr>, ''d1''),
       (\<lparr>file_name = ''b.pdf'', file_bytes = []\<rparr>, ''d2''),
       (\<lparr>file_name = ''c.pdf'', file_bytes = []\<rparr>, ''d3'')]
   = Inr [Some (expected_document ''d1''), Some (expected_document ''d3'')]"
proof -
  let ?r = "\<lparr>ocr_text = ''Paid $250.00'', ocr_confidence = 0.9, boundingBoxes = None\<rparr>"
  have h: "failing_provider \<lparr>file_name = ''a.pdf'', file_bytes = []\<rparr> = Inr ?r
       \<and> failing_provider \<lparr>file_name = ''b.pdf'', file_bytes = []\<rparr> = Inl (Error ''OCR processing failed'')
       \<and> failing_provider \<lparr>file_name = ''c.pdf'', file_bytes = []\<rparr> = Inr ?r"
    by code_simp
  have h1: "parseDocument (\<lambda>n. []) failing_provider \<lparr>file_name = ''a.pdf'', file_bytes = []\<rparr> ''d1''
      = Inr (expected_document ''d1'')"
    by code_simp
  have h3: "parseDocument (\<lambda>n. []) failing_provider \<lparr>file_name = ''c.pdf'', file_bytes = []\<rparr> ''d3''
      = Inr (expected_document ''d3'')"
    by code_simp
  let ?fa = "\<lparr>file_name = ''a.pdf'', file_bytes = []\<rparr>"
  let ?fb = "\<lparr>file_name = ''b.pdf'', file_bytes = []\<rparr>"
  let ?fc = "\<lparr>file_name = ''c.pdf'', file_bytes = []\<rparr>"
  obtain d1 d3 where
    "parseDocument (\<lambda>n. []) failing_provider ?fa ''d1'' = Inr d1"
    "parseDocument (\<lambda>n. []) failing_provider ?fc ''d3'' = Inr d3"
    "parseMultipleDocuments (\<lambda>n. []) failing_provider [(?fa, ''d1''), (?fb, ''d2''), (?fc, ''d3'')]
       = Inr [Some d1, Some d3]"
    using parseMultipleDocuments_isolates_failures[where fmt = "\<lambda>n. []" and ocr = failing_provider
        and ?f1.0 = ?fa and ?i1.0 = "''d1''" and ?f2.0 = ?fb and ?i2.0 = "''d2''"
        and ?f3.0 = ?fc and ?i3.0 = "''d3''"
        and ?r1.0 = ?r and ?r3.0 = ?r and e = "Error ''OCR processing failed''"] h
    by blast
  then show ?thesis using h1 h3 by simp
qed

section \<open>Review annotation\<close>

text \<open>
  Claim C10 fails in its second half: on a field whose label already ends in
  \<open>(Needs Review)\<close> and whose confidence is 0.5 the step appends the suffix again.
\<close>

theorem reviewFlag_appends_again_counterexample:
  "map label (validateAndEnhanceFields
      [\<lparr>key = ''wages'', label = ''Wages (Needs Review)'', field_value = VNum (Fin 10),
        confidence = 0.5, source = None\<rparr>]
      \<lparr>ocr_text = [], ocr_confidence = 0.9, boundingBoxes = None\<rparr>)
   = [''Wages (Needs Review) (Needs Review)'']"
  by (simp add: validateAndEnhanceFields_def reviewFlag_def ocrQualityPenalty_def negativeValuePenalty_def)

text \<open>
  Claim C10, amended. \<open>validateAndEnhanceFields\<close> appends \<open>(Needs Review)\<close> to the label
  of every field whose final confidence is below 0.7 and leaves every other label as
  it was; there is no test for a suffix that is already present.
\<close>

theorem validateAndEnhanceFields_labels:
  "map label (validateAndEnhanceFields fs ocr) =
     map (\<lambda>(f, g). if confidence g < 0.7 then label f @ '' (Needs Review)'' else label f)
       (zip fs (validateAndEnhanceFields fs ocr))"
  unfolding validateAndEnhanceFields_def
  by (induction fs)
     (auto simp: reviewFlag_def ocrQualityPenalty_def negativeValuePenalty_def split: fvalue.splits)

section \<open>Confidence bounds\<close>

lemma extractField_loop_confidence:
  "extractField_loop txt p ocr res = Some f \<Longrightarrow> confidence f = 0.8"
  by (induction res) (auto simp: Let_def split: option.splits if_splits)

lemma extractFields_confidence:
  assumes "f \<in> set (extractFields ps ocr)"
  shows "confidence f = 0.8"
proof -
  obtain p where "extractField (ocr_text ocr) p ocr = Some f"
    using assms by (auto simp: extractFields_def split: option.splits)
  then show ?thesis
    unfolding extractField_def by (rule extractField_loop_confidence)
qed

lemma postProcessFields_confidence:
  "f \<in> set (postProcessFields fmt fs ocr) \<Longrightarrow> f \<in> set fs \<or> confidence f = 0.6"
  by (auto simp: postProcessFields_def Let_def autoField_def split: if_splits)

lemma TaxFormParser_parseDocument_confidence:
  "f \<in> set (TaxFormParser_parseDocument fmt ps ocr) \<Longrightarrow> confidence f = 0.8 \<or> confidence f = 0.6"
  unfolding TaxFormParser_parseDocument_def
  using postProcessFields_confidence extractFields_confidence by blast

lemma W2Parser_parseDocument_confidence:
  "f \<in> set (W2Parser_parseDocument ocr) \<Longrightarrow> confidence f = 0.99"
  by (auto simp: W2Parser_parseDocument_def fixedField_def)

lemma Form1099NECParser_parseDocument_confidence:
  "f \<in> set (Form1099NECParser_parseDocument ocr) \<Longrightarrow> confidence f = 0.99"
  by (auto simp: Form1099NECParser_parseDocument_def fixedField_def)

lemma Parser_parseDocument_confidence:
  assumes "f \<in> set (Parser_parseDocument fmt p ocr)"
  shows "0.6 \<le> confidence f \<and> confidence f \<le> 1"
proof (cases p)
  case W2Parser
  then have "f \<in> set (W2Parser_parseDocument ocr)"
    using assms by (simp add: Parser_parseDocument_def)
  then have "confidence f = 0.99" by (rule W2Parser_parseDocument_confidence)
  then show ?thesis by simp
next
  case Form1099INTParser
  then have "f \<in> set (TaxFormParser_parseDocument fmt Form1099INT_fieldPatterns ocr)"
    using assms by (simp add: Parser_parseDocument_def)
  then have "confidence f = 0.8 \<or> confidence f = 0.6"
    by (rule TaxFormParser_parseDocument_confidence)
  then show ?thesis by auto
next
  case Form1099DIVParser
  then have "f \<in> set (TaxFormParser_parseDocument fmt Form1099DIV_fieldPatterns ocr)"
    using assms by (simp add: Parser_parseDocument_def)
  then have "confidence f = 0.8 \<or> confidence f = 0.6"
    by (rule TaxFormParser_parseDocument_confidence)
  then show ?thesis by auto
next
  case Form1099NECParser
  then have "f \<in> set (Form1099NECParser_parseDocument ocr)"
    using assms by (simp add: Parser_parseDocument_def)
  then have "confidence f = 0.99" by (rule Form1099NECParser_parseDocument_confidence)
  then show ?thesis by simp
qed

lemma in_concat_map_if:
  "f \<in> set (concat (map (\<lambda>(i, m). if P i m then [g i m] else []) xs)) \<Longrightarrow>
   (\<And>i m. Q (g i m)) \<Longrightarrow> Q f"
  by (induction xs) (auto split: if_splits)

lemma performGenericExtraction_confidence:
  assumes "f \<in> set (performGenericExtraction ocr docId)"
  shows "confidence f = 0.5 \<or> confidence f = 0.4"
proof -
  let ?Q = "\<lambda>f. confidence f = 0.5 \<or> confidence f = 0.4"
  have a: "?Q (amountField docId i m v)" for i m v by (simp add: amountField_def)
  have n: "?Q (nameField docId i m)" for i m by (simp add: nameField_def)
  from assms consider
    (amount) "f \<in> set (concat (map (\<lambda>(index, m).
                 if parseFloat (filter (\<lambda>c. c \<notin> set ''$,'') m) \<noteq> NaN
                    \<and> num_gt (parseFloat (filter (\<lambda>c. c \<notin> set ''$,'') m)) (Fin 0)
                 then [amountField docId index m (parseFloat (filter (\<lambda>c. c \<notin> set ''$,'') m))]
                 else [])
               (enumerate 0 (string_match_global (ocr_text ocr) currency_regex))))"
  | (name) "f \<in> set (map (\<lambda>(index, m). nameField docId index m)
               (enumerate 0 (take 3 (string_match_global (ocr_text ocr) name_regex))))"
    unfolding performGenericExtraction_def Let_def by (simp only: set_append Un_iff) blast
  then show ?thesis
  proof cases
    case amount
    then show ?thesis by (rule in_concat_map_if) (rule a)
  next
    case name
    then obtain i m where "f = nameField docId i m" by auto
    then show ?thesis using n by simp
  qed
qed

lemma stampDocumentId_confidence [simp]:
  "confidence (stampDocumentId docId f) = confidence f"
  by (simp add: stampDocumentId_def split: option.splits)

lemma detectionDamping_bounds:
  "0.1 \<le> confidence f \<Longrightarrow> confidence f \<le> 1 \<Longrightarrow>
   0.1 \<le> confidence (detectionDamping det f) \<and> confidence (detectionDamping det f) \<le> 1"
proof -
  assume lo: "0.1 \<le> confidence f" and hi: "confidence f \<le> 1"
  have "d_confidence det < 0.8 \<Longrightarrow> confidence f * d_confidence det \<le> 1"
  proof -
    assume d: "d_confidence det < 0.8"
    have "confidence f * d_confidence det \<le> confidence f * 0.8"
      using lo d by (intro mult_left_mono) simp_all
    then show ?thesis using hi by simp
  qed
  then show ?thesis using lo hi by (auto simp: detectionDamping_def)
qed

lemma negativeValuePenalty_bounds:
  "0.1 \<le> confidence f \<Longrightarrow> confidence f \<le> 1 \<Longrightarrow>
   0.1 \<le> confidence (negativeValuePenalty f) \<and> confidence (negativeValuePenalty f) \<le> 1"
  by (auto simp: negativeValuePenalty_def max_def split: fvalue.splits)

lemma ocrQualityPenalty_bounds:
  "0.1 \<le> confidence f \<Longrightarrow> confidence f \<le> 1 \<Longrightarrow>
   0.1 \<le> confidence (ocrQualityPenalty ocr f) \<and> confidence (ocrQualityPenalty ocr f) \<le> 1"
  by (auto simp: ocrQualityPenalty_def max_def)

lemma reviewFlag_confidence [simp]: "confidence (reviewFlag f) = confidence f"
  by (simp add: reviewFlag_def)

lemma validateAndEnhanceFields_bounds:
  assumes "\<forall>f\<in>set fs. 0.1 \<le> confidence f \<and> confidence f \<le> 1"
  shows "\<forall>g\<in>set (validateAndEnhanceFields fs ocr). 0.1 \<le> confidence g \<and> confidence g \<le> 1"
proof
  fix g assume "g \<in> set (validateAndEnhanceFields fs ocr)"
  then obtain f where f: "f \<in> set fs"
    and g: "g = reviewFlag (ocrQualityPenalty ocr (negativeValuePenalty f))"
    by (auto simp: validateAndEnhanceFields_def)
  have "0.1 \<le> confidence (negativeValuePenalty f) \<and> confidence (negativeValuePenalty f) \<le> 1"
    using assms f negativeValuePenalty_bounds by blast
  then show "0.1 \<le> confidence g \<and> confidence g \<le> 1"
    using g ocrQualityPenalty_bounds by simp
qed

lemma update_first_list_all2:
  "list_all2 (\<lambda>a b. b = a \<or> b = g a) xs (update_first P g xs)"
  by (induction xs) (auto simp: list_all2_same)

text \<open>
  Claim C5. Every field of a document returned by \<open>parseDocument\<close> has a confidence in
  \<open>[0.1, 1]\<close>. Each adjustment that fires leaves a confidence of at least its floor:
  0.1 for the detection damping, the recognition-quality penalty and the negative-value
  penalty, 0.3 for the cross-field rule of \<open>W2Parser.postProcessFields\<close>, which changes
  fields only by that rule; and each adjustment maps a confidence in \<open>[0.1, 1]\<close> into
  \<open>[0.1, 1]\<close>.
\<close>

theorem parseDocument_confidence_bounds:
  "(parseDocument fmt ocr file docId = Inr doc
      \<longrightarrow> list_all (\<lambda>f. 0.1 \<le> confidence f \<and> confidence f \<le> 1) (doc_fields doc))
   \<and> (d_confidence det < 0.8 \<longrightarrow> 0.1 \<le> confidence (detectionDamping det f))
   \<and> (ocr_confidence r < 0.8 \<longrightarrow> 0.1 \<le> confidence (ocrQualityPenalty r f))
   \<and> (field_value f = VNum n \<and> num_lt n (Fin 0) \<longrightarrow> 0.1 \<le> confidence (negativeValuePenalty f))
   \<and> 0.3 \<le> confidence (flagUnusuallyHigh f)
   \<and> list_all2 (\<lambda>a b. b = a \<or> b = flagUnusuallyHigh a)
        (postProcessFields fmt fs r) (W2Parser_postProcessFields fmt toNumber fs r)
   \<and> (0.1 \<le> confidence f \<and> confidence f \<le> 1
      \<longrightarrow> list_all (\<lambda>g. 0.1 \<le> confidence g \<and> confidence g \<le> 1)
            [detectionDamping det f, flagUnusuallyHigh f, ocrQualityPenalty r f,
             negativeValuePenalty f, reviewFlag f])"
proof (intro conjI impI)
  assume a: "parseDocument fmt ocr file docId = Inr doc"
  then obtain res where res: "ocr file = Inr res"
    by (cases "ocr file") (simp_all add: parseDocument_def)
  define det' where "det' = detectDocumentType (file_name file) (ocr_text res)"
  define fs' where "fs' = (case createFormParser (d_type det') of
                       Some parser \<Rightarrow>
                         map (\<lambda>f. detectionDamping det' (stampDocumentId docId f))
                           (Parser_parseDocument fmt parser res)
                     | None \<Rightarrow> performGenericExtraction res docId)"
  have doc: "doc_fields doc = validateAndEnhanceFields fs' res"
    using a res unfolding parseDocument_def Let_def det'_def fs'_def by auto
  have "\<forall>f\<in>set fs'. 0.1 \<le> confidence f \<and> confidence f \<le> 1"
  proof (cases "createFormParser (d_type det')")
    case None
    then have "fs' = performGenericExtraction res docId" by (simp add: fs'_def)
    then show ?thesis using performGenericExtraction_confidence by fastforce
  next
    case (Some parser)
    then have eq: "fs' = map (\<lambda>f. detectionDamping det' (stampDocumentId docId f))
                           (Parser_parseDocument fmt parser res)" by (simp add: fs'_def)
    show ?thesis
    proof
      fix g assume "g \<in> set fs'"
      then obtain f0 where f0: "f0 \<in> set (Parser_parseDocument fmt parser res)"
        and g: "g = detectionDamping det' (stampDocumentId docId f0)"
        using eq by auto
      have "0.6 \<le> confidence f0 \<and> confidence f0 \<le> 1"
        using f0 by (rule Parser_parseDocument_confidence)
      then have "0.1 \<le> confidence (stampDocumentId docId f0) \<and> confidence (stampDocumentId docId f0) \<le> 1"
        by simp
      then show "0.1 \<le> confidence g \<and> confidence g \<le> 1"
        using g detectionDamping_bounds by blast
    qed
  qed
  then have "\<forall>g\<in>set (validateAndEnhanceFields fs' res). 0.1 \<le> confidence g \<and> confidence g \<le> 1"
    by (rule validateAndEnhanceFields_bounds)
  then show "list_all (\<lambda>f. 0.1 \<le> confidence f \<and> confidence f \<le> 1) (doc_fields doc)"
    using doc by (simp add: list_all_iff)
next
  assume "d_confidence det < 0.8"
  then show "0.1 \<le> confidence (detectionDamping det f)" by (simp add: detectionDamping_def)
next
  assume "ocr_confidence r < 0.8"
  then show "0.1 \<le> confidence (ocrQualityPenalty r f)" by (simp add: ocrQualityPenalty_def)
next
  assume "field_value f = VNum n \<and> num_lt n (Fin 0)"
  then show "0.1 \<le> confidence (negativeValuePenalty f)" by (simp add: negativeValuePenalty_def)
next
  show "0.3 \<le> confidence (flagUnusuallyHigh f)" by (simp add: flagUnusuallyHigh_def)
next
  show "list_all2 (\<lambda>a b. b = a \<or> b = flagUnusuallyHigh a)
        (postProcessFields fmt fs r) (W2Parser_postProcessFields fmt toNumber fs r)"
    by (simp add: W2Parser_postProcessFields_def Let_def update_first_list_all2 list_all2_same)
next
  assume b: "0.1 \<le> confidence f \<and> confidence f \<le> 1"
  have "0.1 \<le> confidence (flagUnusuallyHigh f) \<and> confidence (flagUnusuallyHigh f) \<le> 1"
    using b by (auto simp: flagUnusuallyHigh_def max_def)
  then show "list_all (\<lambda>g. 0.1 \<le> confidence g \<and> confidence g \<le> 1)
            [detectionDamping det f, flagUnusuallyHigh f, ocrQualityPenalty r f,
             negativeValuePenalty f, reviewFlag f]"
    using b detectionDamping_bounds[of f det] ocrQualityPenalty_bounds[of f r]
      negativeValuePenalty_bounds[of f] by simp
qed

text \<open>A 1099-INT recognised only by its filename, from a low-quality recognition: the field ends at 0.1.\<close>

theorem parseDocument_confidence_bounds_witness:
  "parseDocument (\<lambda>n. []) low_quality_provider \<lparr>file_name = ''1099-int.pdf'', file_bytes = []\<rparr> ''d1''
     = Inr \<lparr>doc_id = ''d1'', doc_type = T1099_INT,
            doc_fields =
              [\<lparr>key = ''payerName'', label = ''Payer Name (Needs Review)'',
                field_value = VStr ''Acme Bank'', confidence = 0.1,
                source = Some \<lparr>documentId = ''d1'', page = 1, bbox = None,
                                textSnippet = Some ''Payer: Acme Bank''\<rparr>\<rparr>]\<rparr>
   \<and> list_all (\<lambda>f. 0.1 \<le> confidence f \<and> confidence f \<le> 1)
        [\<lparr>key = ''payerName'', label = ''Payer Name (Needs Review)'',
          field_value = VStr ''Acme Bank'', confidence = 0.1,
          source = Some \<lparr>documentId = ''d1'', page = 1, bbox = None,
                          textSnippet = Some ''Payer: Acme Bank''\<rparr>\<rparr>]
   \<and> 0.1 \<le> confidence (detectionDamping \<lparr>d_type = T1099_INT, d_confidence = 0.34\<rparr>
              \<lparr>key = ''k'', label = ''l'', field_value = VNum (Fin (- 5)), confidence = 0.2, source = None\<rparr>)
   \<and> 0.1 \<le> confidence (ocrQualityPenalty
              \<lparr>ocr_text = ''Payer: Acme Bank'', ocr_confidence = 0.6, boundingBoxes = None\<rparr>
              \<lparr>key = ''k'', label = ''l'', field_value = VNum (Fin (- 5)), confidence = 0.2, source = None\<rparr>)
   \<and> 0.1 \<le> confidence (negativeValuePenalty
              \<lparr>key = ''k'', label = ''l'', field_value = VNum (Fin (- 5)), confidence = 0.2, source = None\<rparr>)"
proof -
  let ?f = "\<lparr>key = ''k'', label = ''l'', field_value = VNum (Fin (- 5)), confidence = 0.2, source = None\<rparr>"
  let ?r = "\<lparr>ocr_text = ''Payer: Acme Bank'', ocr_confidence = 0.6, boundingBoxes = None\<rparr>"
  let ?d = "\<lparr>doc_id = ''d1'', doc_type = T1099_INT,
            doc_fields =
              [\<lparr>key = ''payerName'', label = ''Payer Name (Needs Review)'',
                field_value = VStr ''Acme Bank'', confidence = 0.1,
                source = Some \<lparr>documentId = ''d1'', page = 1, bbox = None,
                                textSnippet = Some ''Payer: Acme Bank''\<rparr>\<rparr>]\<rparr>"
  have h: "parseDocument (\<lambda>n. []) low_quality_provider \<lparr>file_name = ''1099-int.pdf'', file_bytes = []\<rparr> ''d1'' = Inr ?d"
    by code_simp
  show ?thesis
    using parseDocument_confidence_bounds[where fmt = "\<lambda>n. []" and ocr = low_quality_provider
        and ?file = "\<lparr>file_name = ''1099-int.pdf'', file_bytes = []\<rparr>" and docId = "''d1''"
        and doc = ?d and det = "\<lparr>d_type = T1099_INT, d_confidence = 0.34\<rparr>" and r = ?r
        and f = ?f and n = "Fin (- 5)"] h
    by simp
qed

section \<open>Fallback extraction\<close>

lemma num_lt_asym: "num_lt a b \<Longrightarrow> \<not> num_lt b a"
  by (cases a; cases b) auto

lemma num_lt_negtrans: "b \<noteq> NaN \<Longrightarrow> num_lt a c \<Longrightarrow> num_lt a b \<or> num_lt b c"
  by (cases a; cases b; cases c) auto

lemma set_insert_desc: "set (insert_desc a xs) = insert a (set xs)"
  by (induction xs) auto

lemma mset_insert_desc: "mset (insert_desc a xs) = add_mset a (mset xs)"
  by (induction xs) auto

lemma mset_sort_desc: "mset (sort_desc xs) = mset xs"
  unfolding sort_desc_def by (induction xs) (simp_all add: mset_insert_desc)

lemma sorted_insert_desc:
  "\<forall>x\<in>set xs. x \<noteq> NaN \<Longrightarrow> sorted_wrt (\<lambda>x y. \<not> num_lt x y) xs \<Longrightarrow>
   sorted_wrt (\<lambda>x y. \<not> num_lt x y) (insert_desc a xs)"
proof (induction xs)
  case Nil
  then show ?case by simp
next
  case (Cons b bs)
  show ?case
  proof (cases "num_lt a b")
    case True
    then have "\<not> num_lt b a" by (rule num_lt_asym)
    then show ?thesis using True Cons by (auto simp: set_insert_desc)
  next
    case False
    have "\<not> num_lt a y" if "y \<in> set bs" for y
    proof
      assume "num_lt a y"
      moreover have "b \<noteq> NaN" using Cons.prems(1) by simp
      ultimately have "num_lt a b \<or> num_lt b y" by (rule num_lt_negtrans[rotated])
      then show False using False Cons.prems(2) that by auto
    qed
    then show ?thesis using False Cons.prems(2) by auto
  qed
qed

lemma sorted_sort_desc:
  "\<forall>x\<in>set xs. x \<noteq> NaN \<Longrightarrow> sorted_wrt (\<lambda>x y. \<not> num_lt x y) (sort_desc xs)"
proof (induction xs)
  case Nil
  then show ?case by (simp add: sort_desc_def)
next
  case (Cons x xs)
  have s: "sort_desc (x # xs) = insert_desc x (sort_desc xs)" by (simp add: sort_desc_def)
  have "set (sort_desc xs) = set xs" using mset_sort_desc by (metis set_mset_mset)
  then have "\<forall>y\<in>set (sort_desc xs). y \<noteq> NaN" using Cons.prems by simp
  moreover have "sorted_wrt (\<lambda>x y. \<not> num_lt x y) (sort_desc xs)" using Cons by simp
  ultimately show ?case unfolding s by (rule sorted_insert_desc)
qed

lemma sorted_sort_desc_ge:
  assumes "\<forall>x\<in>set xs. x \<noteq> NaN"
  shows "sorted_wrt num_ge (sort_desc xs)"
proof -
  have "set (sort_desc xs) = set xs" using mset_sort_desc by (metis set_mset_mset)
  then have "\<not> num_lt x y \<Longrightarrow> num_ge x y"
    if "x \<in> set (sort_desc xs)" "y \<in> set (sort_desc xs)" for x y
    using assms that by (simp add: num_ge_def num_le_def)
  then show ?thesis
    by (rule sorted_wrt_mono_rel[OF _ sorted_sort_desc[OF assms]])
qed

text \<open>
  Claim C6, amended. When the field patterns of a parser yield no field, the fallback
  collects the currency-shaped substrings of the text. With fewer than two of them it
  emits nothing. With two or more it parses each, keeps the amounts above 100, sorts
  them in descending order, and emits the largest as \<open>wages\<close> and, when there is one,
  the second largest as \<open>federalTaxWithheld\<close>, both at confidence 0.6.
\<close>

theorem fallback_extraction:
  assumes "extractFields pats ocr = []"
    and "ms = string_match_global (ocr_text ocr) currency_regex"
    and "amounts = filter (\<lambda>a. num_gt a (Fin 100))
                     (map (\<lambda>m. parseFloat (filter (\<lambda>c. c \<notin> set ''$,'') m)) ms)"
  shows "(length ms < 2 \<longrightarrow> TaxFormParser_parseDocument fmt pats ocr = [])
       \<and> (2 \<le> length ms \<longrightarrow>
            TaxFormParser_parseDocument fmt pats ocr =
              map (\<lambda>((k, l), a). autoField fmt k l a)
                (zip [(''wages'', ''Wages (Auto-detected)''),
                      (''federalTaxWithheld'', ''Federal Tax Withheld (Auto-detected)'')]
                     (sort_desc amounts))
            \<and> mset (sort_desc amounts) = mset amounts
            \<and> sorted_wrt num_ge (sort_desc amounts))
       \<and> key (autoField fmt k l a) = k \<and> field_value (autoField fmt k l a) = VNum a
       \<and> confidence (autoField fmt k l a) = 0.6"
proof (intro conjI impI)
  assume "length ms < 2"
  then show "TaxFormParser_parseDocument fmt pats ocr = []"
    using assms(1,2) by (simp add: TaxFormParser_parseDocument_def postProcessFields_def Let_def)
next
  assume two: "2 \<le> length ms"
  have res: "TaxFormParser_parseDocument fmt pats ocr =
      (if 1 \<le> length (sort_desc amounts)
       then [autoField fmt ''wages'' ''Wages (Auto-detected)'' (sort_desc amounts ! 0)] else [])
      @ (if 2 \<le> length (sort_desc amounts)
         then [autoField fmt ''federalTaxWithheld'' ''Federal Tax Withheld (Auto-detected)''
                 (sort_desc amounts ! 1)] else [])"
    using two assms by (simp add: TaxFormParser_parseDocument_def postProcessFields_def Let_def)
  show "TaxFormParser_parseDocument fmt pats ocr =
              map (\<lambda>((k, l), a). autoField fmt k l a)
                (zip [(''wages'', ''Wages (Auto-detected)''),
                      (''federalTaxWithheld'', ''Federal Tax Withheld (Auto-detected)'')]
                     (sort_desc amounts))"
  proof (cases "sort_desc amounts")
    case Nil
    then show ?thesis using res by simp
  next
    case (Cons a as)
    then show ?thesis using res by (cases as) simp_all
  qed
next
  show "mset (sort_desc amounts) = mset amounts" by (rule mset_sort_desc)
next
  have "\<forall>x\<in>set amounts. x \<noteq> NaN" using assms(3) by (auto simp: num_gt_def)
  then show "sorted_wrt num_ge (sort_desc amounts)" by (rule sorted_sort_desc_ge)
qed (simp_all add: autoField_def)

text \<open>Three currency substrings, two of them above 100.\<close>

theorem fallback_extraction_witness:
  "extractFields Form1099INT_fieldPatterns
      \<lparr>ocr_text = ''Paid $1,250.00 then $125.50 and $20'', ocr_confidence = 0.9, boundingBoxes = None\<rparr> = []
   \<and> string_match_global ''Paid $1,250.00 then $125.50 and $20'' currency_regex
       = [''$1,250.00'', ''$125.50'', ''$20'']
   \<and> TaxFormParser_parseDocument (\<lambda>n. []) Form1099INT_fieldPatterns
       \<lparr>ocr_text = ''Paid $1,250.00 then $125.50 and $20'', ocr_confidence = 0.9, boundingBoxes = None\<rparr>
     = [autoField (\<lambda>n. []) ''wages'' ''Wages (Auto-detected)'' (Fin 1250),
        autoField (\<lambda>n. []) ''federalTaxWithheld'' ''Federal Tax Withheld (Auto-detected)'' (Fin 125.5)]"
proof -
  let ?ocr = "\<lparr>ocr_text = ''Paid $1,250.00 then $125.50 and $20'', ocr_confidence = 0.9,
               boundingBoxes = None\<rparr>"
  let ?ms = "[''$1,250.00'', ''$125.50'', ''$20'']"
  have h1: "extractFields Form1099INT_fieldPatterns ?ocr = []" by code_simp
  have h2: "?ms = string_match_global (ocr_text ?ocr) currency_regex" by code_simp
  have h3: "[Fin 1250, Fin 125.5] = filter (\<lambda>a. num_gt a (Fin 100))
                     (map (\<lambda>m. parseFloat (filter (\<lambda>c. c \<notin> set ''$,'') m)) ?ms)" by code_simp
  have s: "sort_desc [Fin 1250, Fin 125.5] = [Fin 1250, Fin 125.5]" by code_simp
  show ?thesis
    using fallback_extraction[OF h1 h2 h3, of "\<lambda>n. []"] h1 h2[symmetric] s by simp
qed

text \<open>
  Claim C6 fails on a text with a single currency-shaped substring: no field pattern
  matches, the only amount is 5000, and nothing is emitted.
\<close>

theorem fallback_single_amount_counterexample:
  "extractFields Form1099INT_fieldPatterns
      \<lparr>ocr_text = ''Total: $5,000.00'', ocr_confidence = 0.9, boundingBoxes = None\<rparr> = []
   \<and> string_match_global ''Total: $5,000.00'' currency_regex = [''$5,000.00'']
   \<and> parseFloat (filter (\<lambda>c. c \<notin> set ''$,'') ''$5,000.00'') = Fin 5000
   \<and> num_gt (Fin 5000) (Fin 100)
   \<and> TaxFormParser_parseDocument (\<lambda>n. []) Form1099INT_fieldPatterns
       \<lparr>ocr_text = ''Total: $5,000.00'', ocr_confidence = 0.9, boundingBoxes = None\<rparr> = []"
  by code_simp

end
